theory Spec2Isabelle
  imports Main "HOL-Library.Char_ord" "HOL-Library.List_Lexorder"
begin

section \<open>Python values used by the script\<close>

text \<open>
  A Python \<open>str\<close> is modelled as a \<open>string\<close>; a \<open>char\<close> stands for a code point
  below 256.  A cell of a data frame read from CSV is a text or missing (pandas' NaN):
  \<open>None\<close> is the missing value, the only value for which \<open>pd.isna\<close> holds.
\<close>

type_synonym cell = "string option"

definition isna :: "cell \<Rightarrow> bool" where
  "isna c = (c = None)"

text \<open>
  The characters Python counts as whitespace (\<open>\s\<close> in a \<open>str\<close> pattern and
  \<open>str.strip\<close> both use the same predicate), restricted to code points below 256:
  TAB, LF, VT, FF, CR, FS, GS, RS, US, SPACE, NEL and NBSP.
\<close>

definition isspace :: "char \<Rightarrow> bool" where
  "isspace c = (c \<in> set [CHR 0x09, CHR 0x0A, CHR 0x0B, CHR 0x0C, CHR 0x0D,
                          CHR 0x1C, CHR 0x1D, CHR 0x1E, CHR 0x1F, CHR 0x20,
                          CHR 0x85, CHR 0xA0])"

section \<open>The name normalizer\<close>

text \<open>
  \<open>paren_match s\<close> tries the pattern \<^verbatim>\<open>\s*\(.*?\)\s*\<close> at the start of \<open>s\<close> and
  returns what follows the match.  The leading \<^verbatim>\<open>\s*\<close> is greedy; giving characters back
  never helps, because the next thing wanted is an opening parenthesis.  The lazy
  \<^verbatim>\<open>.*?\<close> stops at the first closing parenthesis and cannot cross a line feed, the one
  character \<^verbatim>\<open>.\<close> does not match.
\<close>

definition paren_match :: "string \<Rightarrow> string option" where
  "paren_match s =
     (case dropWhile isspace s of
        [] \<Rightarrow> None
      | p # body \<Rightarrow>
          if p \<noteq> CHR ''('' then None
          else (case dropWhile (\<lambda>x. x \<noteq> CHR '')'' \<and> x \<noteq> CHR 0x0A) body of
                  [] \<Rightarrow> None
                | q # after \<Rightarrow>
                    if q = CHR '')'' then Some (dropWhile isspace after) else None))"

lemma paren_match_shorter:
  assumes "paren_match s = Some r"
  shows "length r < length s"
proof -
  obtain body where b: "dropWhile isspace s = CHR ''('' # body"
    using assms by (auto simp: paren_match_def split: list.splits if_splits)
  obtain after where a: "dropWhile (\<lambda>x. x \<noteq> CHR '')'' \<and> x \<noteq> CHR 0x0A) body = CHR '')'' # after"
    and r: "r = dropWhile isspace after"
    using assms b by (auto simp: paren_match_def split: list.splits if_splits)
  have "length r \<le> length after"
    by (simp add: r length_dropWhile_le)
  also have "\<dots> < length body"
    using length_dropWhile_le [of "\<lambda>x. x \<noteq> CHR '')'' \<and> x \<noteq> CHR 0x0A" body] a by simp
  also have "\<dots> < length s"
    using length_dropWhile_le [of isspace s] b by simp
  finally show ?thesis .
qed

text \<open>\<^verbatim>\<open>re.sub(r"\s*\(.*?\)\s*", " ", s)\<close>: leftmost matches, left to right, not overlapping.\<close>

function sub_parens :: "string \<Rightarrow> string" where
  "sub_parens [] = []"
| "sub_parens (c # cs) =
     (case paren_match (c # cs) of
        Some r \<Rightarrow> CHR '' '' # sub_parens r
      | None \<Rightarrow> c # sub_parens cs)"
  by pat_completeness auto
termination
  by (relation "measure length") (auto dest: paren_match_shorter)

text \<open>\<^verbatim>\<open>re.sub(r"\s+", " ", s)\<close>: every maximal run of whitespace becomes one space.\<close>

function collapse_ws :: "string \<Rightarrow> string" where
  "collapse_ws [] = []"
| "collapse_ws (c # cs) =
     (if isspace c then CHR '' '' # collapse_ws (dropWhile isspace cs)
      else c # collapse_ws cs)"
  by pat_completeness auto
termination
  by (relation "measure length") (auto simp: less_Suc_eq_le length_dropWhile_le)

definition strip :: "string \<Rightarrow> string" where
  "strip s = rev (dropWhile isspace (rev (dropWhile isspace s)))"

text \<open>
  \<open>str.casefold\<close> is driven by the Unicode case-folding table, which is library data;
  the functions below take it as the parameter \<open>cf\<close>.  \<open>ascii_casefold\<close> is its
  restriction to ASCII text, used where a concrete run is evaluated.
\<close>

definition ascii_casefold :: "string \<Rightarrow> string" where
  "ascii_casefold s =
     map (\<lambda>c. case map_of (zip ''ABCDEFGHIJKLMNOPQRSTUVWXYZ'' ''abcdefghijklmnopqrstuvwxyz'') c of
                 Some l \<Rightarrow> l | None \<Rightarrow> c) s"

definition normalize_species :: "(string \<Rightarrow> string) \<Rightarrow> cell \<Rightarrow> string" where
  "normalize_species cf name =
     (if isna name then []
      else cf (strip (collapse_ws (sub_parens (the name)))))"


section \<open>Errors, dictionaries and data frames\<close>

text \<open>
  Every exception the script can raise is a value.  \<open>KeyError_find_col candidates columns\<close>
  is the \<open>KeyError\<close> of \<open>find_col\<close>, whose message is the f-string
  \<^verbatim>\<open>No se encontro ninguna de las columnas esperadas: {candidates} en {list(df.columns)}\<close>;
  the model keeps the two interpolated lists.  \<open>KeyError_column c\<close> is what \<open>df[c]\<close>
  raises for a column that is not there, \<open>IndexError\<close> what a list raises when indexed
  out of range.
\<close>

datatype error =
    KeyError_find_col "string list" "string list"
  | KeyError_column string
  | IndexError

text \<open>
  A Python \<open>dict\<close> whose iteration order matters is a list of pairs: storing under a key
  that is present replaces the value where it stands, a new key goes to the end.  The
  columns of a \<open>DataFrame\<close> behave the same under \<open>df[c] = values\<close>, so a frame is
  such a list from column name to the column's cells.
\<close>

fun dict_set :: "('k \<times> 'v) list \<Rightarrow> 'k \<Rightarrow> 'v \<Rightarrow> ('k \<times> 'v) list" where
  "dict_set [] k v = [(k, v)]"
| "dict_set ((k', v') # kvs) k v =
     (if k' = k then (k, v) # kvs else (k', v') # dict_set kvs k v)"

type_synonym frame = "(string \<times> cell list) list"

definition columns :: "frame \<Rightarrow> string list" where
  "columns df = map fst df"

definition get_col :: "frame \<Rightarrow> string \<Rightarrow> error + cell list" where
  "get_col df c = (case map_of df c of None \<Rightarrow> Inl (KeyError_column c) | Some vs \<Rightarrow> Inr vs)"

definition set_col :: "frame \<Rightarrow> string \<Rightarrow> cell list \<Rightarrow> frame" where
  "set_col df c vs = dict_set df c vs"

text \<open>\<^verbatim>\<open>df.drop(columns=[c], errors="ignore")\<close>\<close>

definition drop_col :: "frame \<Rightarrow> string \<Rightarrow> frame" where
  "drop_col df c = filter (\<lambda>(k, vs). k \<noteq> c) df"

section \<open>The column resolver\<close>

definition header_norm :: "(string \<Rightarrow> string) \<Rightarrow> string \<Rightarrow> string" where
  "header_norm cf c = cf (strip (collapse_ws c))"

definition find_col :: "(string \<Rightarrow> string) \<Rightarrow> frame \<Rightarrow> string list \<Rightarrow> error + string" where
  "find_col cf df candidates =
     (let norm_map = foldl (\<lambda>m c. dict_set m c (header_norm cf c)) [] (columns df);
          targets = map cf candidates
      in case find (\<lambda>(col, norm). norm \<in> set targets) norm_map of
           Some (col, norm) \<Rightarrow> Inr col
         | None \<Rightarrow> Inl (KeyError_find_col candidates (columns df)))"

section \<open>Floating-point values and their rendering\<close>

text \<open>
  A Python \<open>float\<close>: a finite value \<open>(-1)^s * m * 2^e\<close> (sign kept apart, so that
  negative zero is a value), an infinity, or NaN.  \<open>pd.isna\<close> of a float holds for NaN
  only.
\<close>

datatype pyfloat = Finite bool nat int | Infinite bool | NaN

definition isnan :: "pyfloat \<Rightarrow> bool" where
  "isnan x = (x = NaN)"

definition digit_char :: "nat \<Rightarrow> char" where
  "digit_char d = ''0123456789'' ! (d mod 10)"

fun decimal :: "nat \<Rightarrow> string" where
  "decimal n = (if n < 10 then [digit_char n] else decimal (n div 10) @ [digit_char (n mod 10)])"

definition round_half_even :: "nat \<Rightarrow> nat \<Rightarrow> nat" where
  "round_half_even num den =
     (let q = num div den; r = num mod den
      in if den < 2 * r \<or> (2 * r = den \<and> odd q) then q + 1 else q)"

text \<open>The magnitude times \<open>10^6\<close>, correctly rounded to an integer (ties to even).\<close>

definition scaled6 :: "nat \<Rightarrow> int \<Rightarrow> nat" where
  "scaled6 m e =
     (if 0 \<le> e then m * 2 ^ nat e * 10 ^ 6
      else round_half_even (m * 10 ^ 6) (2 ^ nat (- e)))"

definition pad6 :: "string \<Rightarrow> string" where
  "pad6 ds = replicate (6 - length ds) CHR ''0'' @ ds"

text \<open>\<^verbatim>\<open>f"{float(x):.6f}"\<close>\<close>

definition format_6f :: "pyfloat \<Rightarrow> string" where
  "format_6f x =
     (case x of
        Finite s m e \<Rightarrow>
          (if s then ''-'' else []) @ decimal (scaled6 m e div 10 ^ 6) @ ''.'' @
          pad6 (decimal (scaled6 m e mod 10 ^ 6))
      | Infinite s \<Rightarrow> (if s then ''-inf'' else ''inf'')
      | NaN \<Rightarrow> ''nan'')"

text \<open>
  \<^verbatim>\<open>pd.to_numeric(column, errors="coerce")\<close> on one cell: a missing cell stays missing,
  a text is parsed, and a text that is no number becomes NaN.  The parser is library
  code and is the parameter \<open>parse\<close>.
\<close>

definition to_numeric :: "(string \<Rightarrow> pyfloat) \<Rightarrow> cell \<Rightarrow> pyfloat" where
  "to_numeric parse c = (case c of None \<Rightarrow> NaN | Some s \<Rightarrow> parse s)"

section \<open>Grouping rows\<close>

text \<open>
  \<^verbatim>\<open>frame.groupby(key)\<close> with pandas' defaults (\<open>sort=True\<close>): one group per distinct key,
  the groups in ascending order of the keys, each holding the labels of its rows in the
  order of the frame.  A frame read by \<open>read_csv\<close> has the labels \<open>0, 1, ..., n - 1\<close>.
  Keys are compared as Python compares \<open>str\<close>: lexicographically by code point.
\<close>

definition rows_of :: "string list \<Rightarrow> string \<Rightarrow> nat list" where
  "rows_of keys k = filter (\<lambda>i. keys ! i = k) [0..<length keys]"

definition groupby_groups :: "string list \<Rightarrow> (string \<times> nat list) list" where
  "groupby_groups keys = map (\<lambda>k. (k, rows_of keys k)) (sort (remdups keys))"

section \<open>The master index\<close>

type_synonym coords = "(pyfloat \<times> pyfloat) list"
type_synonym master = "string \<rightharpoonup> coords"

definition nombre_candidates :: "string list" where
  "nombre_candidates = [''nombre de ave'', ''nombre_de_ave'', ''nombre'', ''especie'', ''species'']"

definition lat_candidates :: "string list" where
  "lat_candidates = [''latitud'', ''lat'']"

definition lon_candidates :: "string list" where
  "lon_candidates = [''longitud'', ''lon'', ''long'', ''lopnong'']"

text \<open>
  \<^verbatim>\<open>dfm.dropna(subset=["_nombre_norm", "_lat", "_lon"])\<close> keeps the rows none of whose three
  values is missing.  The first of them is a \<open>str\<close> made by \<open>normalize_species\<close>, and no
  \<open>str\<close> is missing for pandas, the empty one included.
\<close>

definition str_isna :: "string \<Rightarrow> bool" where
  "str_isna s = False"

definition dropna_rows :: "(string \<times> pyfloat \<times> pyfloat) list \<Rightarrow> (string \<times> pyfloat \<times> pyfloat) list" where
  "dropna_rows rows =
     filter (\<lambda>(name, lat, lon). \<not> str_isna name \<and> \<not> isnan lat \<and> \<not> isnan lon) rows"

text \<open>The loop over the groups of the cleaned master table, filling the dictionary.\<close>

definition build_master :: "(string \<times> pyfloat \<times> pyfloat) list \<Rightarrow> master" where
  "build_master rows =
     foldl (\<lambda>master (name, idx).
              let coords = map (\<lambda>i. snd (rows ! i)) idx
              in if coords \<noteq> [] then master(name \<mapsto> coords) else master)
           Map.empty (groupby_groups (map fst rows))"

text \<open>
  The helper columns \<open>_nombre_norm\<close>, \<open>_lat\<close> and \<open>_lon\<close> that the script adds to
  its copy of the master table hold exactly the three lists below; none of their names
  folds to a candidate header, so the resolved columns are read from the table as loaded.
\<close>

definition load_master ::
  "(string \<Rightarrow> string) \<Rightarrow> (string \<Rightarrow> pyfloat) \<Rightarrow> frame \<Rightarrow> error + master" where
  "load_master cf parse dfm =
     (case find_col cf dfm nombre_candidates of Inl e \<Rightarrow> Inl e | Inr col_nombre \<Rightarrow>
      case find_col cf dfm lat_candidates of Inl e \<Rightarrow> Inl e | Inr col_lat \<Rightarrow>
      case find_col cf dfm lon_candidates of Inl e \<Rightarrow> Inl e | Inr col_lon \<Rightarrow>
      case get_col dfm col_nombre of Inl e \<Rightarrow> Inl e | Inr nombre \<Rightarrow>
      case get_col dfm col_lat of Inl e \<Rightarrow> Inl e | Inr lat_raw \<Rightarrow>
      case get_col dfm col_lon of Inl e \<Rightarrow> Inl e | Inr lon_raw \<Rightarrow>
        Inr (build_master (dropna_rows
               (zip (map (normalize_species cf) nombre)
                    (zip (map (to_numeric parse) lat_raw) (map (to_numeric parse) lon_raw))))))"


section \<open>The coordinate assigner\<close>

text \<open>
  The numpy generator is library code.  Its state is a value of an arbitrary type \<open>'g\<close>,
  and its two calls are parameters, each returning the new state:
  \<open>int1 g k\<close> is \<^verbatim>\<open>rng.integers(0, k)\<close> and \<open>intN g k n\<close> is
  \<^verbatim>\<open>rng.integers(0, k, size=n)\<close>.  \<open>rng_ok\<close> is what numpy documents of them: every
  value drawn is below \<open>k\<close>, and the array has \<open>n\<close> entries.
\<close>

definition rng_ok :: "('g \<Rightarrow> nat \<Rightarrow> nat \<times> 'g) \<Rightarrow> ('g \<Rightarrow> nat \<Rightarrow> nat \<Rightarrow> nat list \<times> 'g) \<Rightarrow> bool" where
  "rng_ok int1 intN =
     (\<forall>g k n. (0 < k \<longrightarrow> fst (int1 g k) < k) \<and>
              length (fst (intN g k n)) = n \<and>
              (0 < k \<longrightarrow> list_all (\<lambda>c. c < k) (fst (intN g k n))))"

text \<open>
  \<^verbatim>\<open>coords_list[choice]\<close> followed by the two stores \<^verbatim>\<open>out.loc[row_i, ...] = ...\<close>.
  The columns \<open>lat\<close> and \<open>lopnong\<close> hold floats while the loop runs; they are kept as
  two lists beside the frame.  Every label comes from the grouping and is a row of the frame.
\<close>

definition assign_row ::
  "coords \<Rightarrow> nat \<Rightarrow> nat \<Rightarrow> pyfloat list \<times> pyfloat list \<Rightarrow> error + (pyfloat list \<times> pyfloat list)" where
  "assign_row coords_list row_i choice ll =
     (if choice < length coords_list
      then Inr ((fst ll)[row_i := fst (coords_list ! choice)],
                (snd ll)[row_i := snd (coords_list ! choice)])
      else Inl IndexError)"

text \<open>\<^verbatim>\<open>for row_i, choice in zip(idx_list, choices): ...\<close>\<close>

fun assign_rows ::
  "coords \<Rightarrow> (nat \<times> nat) list \<Rightarrow> pyfloat list \<times> pyfloat list \<Rightarrow> error + (pyfloat list \<times> pyfloat list)" where
  "assign_rows coords_list [] ll = Inr ll"
| "assign_rows coords_list ((row_i, choice) # rest) ll =
     (case assign_row coords_list row_i choice ll of
        Inl e \<Rightarrow> Inl e
      | Inr ll' \<Rightarrow> assign_rows coords_list rest ll')"

text \<open>One turn of the loop over the groups: the state is the two columns and the generator.\<close>

definition assign_group ::
  "('g \<Rightarrow> nat \<Rightarrow> nat \<times> 'g) \<Rightarrow> ('g \<Rightarrow> nat \<Rightarrow> nat \<Rightarrow> nat list \<times> 'g) \<Rightarrow> master \<Rightarrow>
   string \<times> nat list \<Rightarrow> (pyfloat list \<times> pyfloat list) \<times> 'g \<Rightarrow>
   error + ((pyfloat list \<times> pyfloat list) \<times> 'g)" where
  "assign_group int1 intN master grp st =
     (case master (fst grp) of
        None \<Rightarrow> Inr st
      | Some coords_list \<Rightarrow>
          if coords_list = [] then Inr st
          else if length (snd grp) = 1 then
            (case assign_row coords_list (hd (snd grp)) (fst (int1 (snd st) (length coords_list))) (fst st) of
               Inl e \<Rightarrow> Inl e
             | Inr ll \<Rightarrow> Inr (ll, snd (int1 (snd st) (length coords_list))))
          else
            (case assign_rows coords_list
                    (zip (snd grp) (fst (intN (snd st) (length coords_list) (length (snd grp))))) (fst st) of
               Inl e \<Rightarrow> Inl e
             | Inr ll \<Rightarrow> Inr (ll, snd (intN (snd st) (length coords_list) (length (snd grp))))))"

fun assign_loop ::
  "('g \<Rightarrow> nat \<Rightarrow> nat \<times> 'g) \<Rightarrow> ('g \<Rightarrow> nat \<Rightarrow> nat \<Rightarrow> nat list \<times> 'g) \<Rightarrow> master \<Rightarrow>
   (string \<times> nat list) list \<Rightarrow> (pyfloat list \<times> pyfloat list) \<times> 'g \<Rightarrow>
   error + ((pyfloat list \<times> pyfloat list) \<times> 'g)" where
  "assign_loop int1 intN master [] st = Inr st"
| "assign_loop int1 intN master (grp # grps) st =
     (case assign_group int1 intN master grp st of
        Inl e \<Rightarrow> Inl e
      | Inr st' \<Rightarrow> assign_loop int1 intN master grps st')"

definition fmt_pair :: "pyfloat \<Rightarrow> pyfloat \<Rightarrow> string" where
  "fmt_pair a b = (if isnan a \<or> isnan b then [] else format_6f a @ '','' @ format_6f b)"

definition fmt_one :: "pyfloat \<Rightarrow> string" where
  "fmt_one x = (if isnan x then [] else format_6f x)"

text \<open>
  The float columns after the loop, for a table whose normalized names are \<open>norms\<close>:
  both start as NaN in every row.
\<close>

definition assign_floats ::
  "('g \<Rightarrow> nat \<Rightarrow> nat \<times> 'g) \<Rightarrow> ('g \<Rightarrow> nat \<Rightarrow> nat \<Rightarrow> nat list \<times> 'g) \<Rightarrow> master \<Rightarrow>
   string list \<Rightarrow> 'g \<Rightarrow> error + ((pyfloat list \<times> pyfloat list) \<times> 'g)" where
  "assign_floats int1 intN master norms rng =
     assign_loop int1 intN master (groupby_groups norms)
       ((replicate (length norms) NaN, replicate (length norms) NaN), rng)"

text \<open>
  \<open>assign_coords\<close> returns the enriched frame and the generator as the loop left it.
  The stores into the copy \<open>out\<close> are made one after the other as in the script, so a
  column that is already there keeps its place and loses its cells.
\<close>

definition assign_coords ::
  "(string \<Rightarrow> string) \<Rightarrow> ('g \<Rightarrow> nat \<Rightarrow> nat \<times> 'g) \<Rightarrow> ('g \<Rightarrow> nat \<Rightarrow> nat \<Rightarrow> nat list \<times> 'g) \<Rightarrow>
   frame \<Rightarrow> string \<Rightarrow> master \<Rightarrow> 'g \<Rightarrow> error + (frame \<times> 'g)" where
  "assign_coords cf int1 intN df species_col master rng =
     (case get_col df species_col of
        Inl e \<Rightarrow> Inl e
      | Inr species \<Rightarrow>
          let norms = map (normalize_species cf) species;
              out1 = set_col df ''_species_norm'' (map Some norms);
              out2 = set_col out1 ''lat'' (replicate (length norms) None);
              out3 = set_col out2 ''lopnong'' (replicate (length norms) None)
          in case assign_floats int1 intN master norms rng of
               Inl e \<Rightarrow> Inl e
             | Inr (ll, rng') \<Rightarrow>
                 let out4 = set_col out3 ''lat_lon'' (map (\<lambda>(a, b). Some (fmt_pair a b)) (zip (fst ll) (snd ll)));
                     out5 = set_col out4 ''lat'' (map (\<lambda>x. Some (fmt_one x)) (fst ll));
                     out6 = set_col out5 ''lopnong'' (map (\<lambda>x. Some (fmt_one x)) (snd ll))
                 in Inr (drop_col out6 ''_species_norm'', rng'))"

section \<open>The driver\<close>

definition species_candidates :: "string list" where
  "species_candidates = [''species'', ''especie'', ''nombre de ave'', ''nombre'']"

text \<open>
  Lines 139 to 141 of the script: the distinct normalized names of the table, those of
  them that are not empty and not a key of the master index, sorted.  A Python \<open>set\<close>
  has no order of its own; \<open>sorted\<close> gives it one.
\<close>

definition no_match_of :: "master \<Rightarrow> string list \<Rightarrow> string list" where
  "no_match_of master norms =
     sort (filter (\<lambda>s. s \<noteq> [] \<and> master s = None) (remdups norms))"

text \<open>
  What a run leaves behind: the enriched table written to \<open>--out\<close>, the report
  \<open>no_match.csv\<close> (written only when the list is not empty), and the three counts printed.
\<close>

record run_result =
  enriched :: frame
  no_match_file :: "string list option"
  total :: nat
  asignadas :: nat
  sin_match :: nat

definition main ::
  "(string \<Rightarrow> string) \<Rightarrow> (string \<Rightarrow> pyfloat) \<Rightarrow>
   ('g \<Rightarrow> nat \<Rightarrow> nat \<times> 'g) \<Rightarrow> ('g \<Rightarrow> nat \<Rightarrow> nat \<Rightarrow> nat list \<times> 'g) \<Rightarrow>
   frame \<Rightarrow> frame \<Rightarrow> 'g \<Rightarrow> error + run_result" where
  "main cf parse int1 intN df dfm rng =
     (case find_col cf df species_candidates of Inl e \<Rightarrow> Inl e | Inr species_col \<Rightarrow>
      case load_master cf parse dfm of Inl e \<Rightarrow> Inl e | Inr master \<Rightarrow>
      case assign_coords cf int1 intN df species_col master rng of Inl e \<Rightarrow> Inl e | Inr (result, rng') \<Rightarrow>
      case get_col df species_col of Inl e \<Rightarrow> Inl e | Inr species \<Rightarrow>
      case get_col result ''lat'' of Inl e \<Rightarrow> Inl e | Inr lat \<Rightarrow>
        let no_match = no_match_of master (map (normalize_species cf) species)
        in Inr \<lparr> enriched = result,
                 no_match_file = (if no_match \<noteq> [] then Some no_match else None),
                 total = length species,
                 asignadas = length (filter (\<lambda>c. c \<noteq> Some []) lat),
                 sin_match = length no_match \<rparr>)"


section \<open>Concrete library instances for evaluated runs\<close>

text \<open>
  \<open>parse_small\<close> reads an unsigned run of digits and the two infinities as
  \<open>pd.to_numeric\<close> does, and turns every other text into NaN.
\<close>

definition parse_small :: "string \<Rightarrow> pyfloat" where
  "parse_small s =
     (if s = ''inf'' then Infinite False
      else if s = ''-inf'' then Infinite True
      else if s \<noteq> [] \<and> list_all (\<lambda>c. c \<in> set ''0123456789'') s
      then Finite False
             (foldl (\<lambda>n c. 10 * n + the (map_of (zip ''0123456789'' [0, 1, 2, 3, 4, 5, 6, 7, 8, 9]) c)) 0 s) 0
      else NaN)"

text \<open>
  A generator whose state is the number of values drawn so far and whose next value is
  that number, reduced into the range asked for: the value a row receives tells at which
  place of the sequence its draw stood.
\<close>

definition counter_int1 :: "nat \<Rightarrow> nat \<Rightarrow> nat \<times> nat" where
  "counter_int1 g k = (g mod k, g + 1)"

definition counter_intN :: "nat \<Rightarrow> nat \<Rightarrow> nat \<Rightarrow> nat list \<times> nat" where
  "counter_intN g k n = (map (\<lambda>j. (g + j) mod k) [0..<n], g + n)"

section \<open>Auxiliary notions for stating and proving the properties\<close>

declare decimal.simps [simp del]

text \<open>
  A header written with a tab, doubled spaces, a line feed and a no-break space around and
  inside it, in capitals.
\<close>

definition header_spaced :: string where
  "header_spaced = CHR 0x09 # ''Nombre  de'' @ CHR 0x0A # '' AVE'' @ [CHR 0xA0]"

text \<open>
  What an error of the resolver says of the column that was looked for: the candidate
  headers listed in its message.  The message has one other slot, for the table's own
  headers.
\<close>

definition sought_names :: "error \<Rightarrow> string list" where
  "sought_names e = (case e of KeyError_find_col candidates cols \<Rightarrow> candidates | _ \<Rightarrow> [])"

text \<open>The rows of the master table that survive \<open>dropna\<close>, from the three resolved columns.\<close>

definition clean_rows ::
  "(string \<Rightarrow> string) \<Rightarrow> (string \<Rightarrow> pyfloat) \<Rightarrow> cell list \<Rightarrow> cell list \<Rightarrow> cell list \<Rightarrow>
   (string \<times> pyfloat \<times> pyfloat) list" where
  "clean_rows cf parse nombre lat_raw lon_raw =
     dropna_rows (zip (map (normalize_species cf) nombre)
                      (zip (map (to_numeric parse) lat_raw) (map (to_numeric parse) lon_raw)))"

definition dfm_mixed :: frame where
  "dfm_mixed =
     [(''Nombre'', [Some ''Heron'', Some ''Dodo'', Some ''heron (x)'']),
      (''lat'', [Some ''10'', Some ''N/A'', Some ''11'']),
      (''lon'', [Some ''20'', Some ''5'', Some ''21''])]"

definition report_of :: "run_result \<Rightarrow> string list" where
  "report_of out = (case no_match_file out of None \<Rightarrow> [] | Some names \<Rightarrow> names)"

definition dfm_heron :: frame where
  "dfm_heron = [(''nombre'', [Some ''Heron'']), (''lat'', [Some ''10'']), (''lon'', [Some ''20''])]"

definition df_demo :: frame where
  "df_demo =
     [(''id'', [Some ''r0'', Some ''r1'', Some ''r2'', Some ''r3'']),
      (''Species'', [Some ''Heron'', Some ''Dodo'', None, Some ''dodo (extinct)''])]"

text \<open>
  The values one turn of the loop draws for a group of \<open>n\<close> rows with \<open>k\<close> candidates, and
  the generator afterwards: one scalar call when the group has one row, one array call
  otherwise.
\<close>

definition draw_choices ::
  "('g \<Rightarrow> nat \<Rightarrow> nat \<times> 'g) \<Rightarrow> ('g \<Rightarrow> nat \<Rightarrow> nat \<Rightarrow> nat list \<times> 'g) \<Rightarrow> 'g \<Rightarrow> nat \<Rightarrow> nat \<Rightarrow> nat list" where
  "draw_choices int1 intN g k n = (if n = 1 then [fst (int1 g k)] else fst (intN g k n))"

definition draw_state ::
  "('g \<Rightarrow> nat \<Rightarrow> nat \<times> 'g) \<Rightarrow> ('g \<Rightarrow> nat \<Rightarrow> nat \<Rightarrow> nat list \<times> 'g) \<Rightarrow> 'g \<Rightarrow> nat \<Rightarrow> nat \<Rightarrow> 'g" where
  "draw_state int1 intN g k n = (if n = 1 then snd (int1 g k) else snd (intN g k n))"

text \<open>
  A store of the loop, as a value: the row, the candidate list of the row's species and the
  index drawn.  \<open>schedule\<close> lists the stores of the whole loop in the order they are made.
\<close>

type_synonym entry = "nat \<times> coords \<times> nat"

definition in_range :: "entry list \<Rightarrow> bool" where
  "in_range es = list_all (\<lambda>(r, cs, c). c < length cs) es"

fun store :: "entry list \<Rightarrow> pyfloat list \<times> pyfloat list \<Rightarrow> pyfloat list \<times> pyfloat list" where
  "store [] ll = ll"
| "store ((r, cs, c) # es) ll = store es ((fst ll)[r := fst (cs ! c)], (snd ll)[r := snd (cs ! c)])"

definition group_entries :: "coords \<Rightarrow> nat list \<Rightarrow> nat list \<Rightarrow> entry list" where
  "group_entries cs rows choices = map (\<lambda>(r, c). (r, cs, c)) (zip rows choices)"

fun schedule ::
  "('g \<Rightarrow> nat \<Rightarrow> nat \<times> 'g) \<Rightarrow> ('g \<Rightarrow> nat \<Rightarrow> nat \<Rightarrow> nat list \<times> 'g) \<Rightarrow> master \<Rightarrow>
   string list \<Rightarrow> string list \<Rightarrow> 'g \<Rightarrow> entry list \<times> 'g" where
  "schedule int1 intN master norms [] g = ([], g)"
| "schedule int1 intN master norms (k # ks) g =
     (case master k of
        None \<Rightarrow> schedule int1 intN master norms ks g
      | Some cs \<Rightarrow>
          if cs = [] then schedule int1 intN master norms ks g
          else (group_entries cs (rows_of norms k)
                  (draw_choices int1 intN g (length cs) (length (rows_of norms k)))
                @ fst (schedule int1 intN master norms ks
                        (draw_state int1 intN g (length cs) (length (rows_of norms k)))),
                snd (schedule int1 intN master norms ks
                        (draw_state int1 intN g (length cs) (length (rows_of norms k))))))"

text \<open>The three derived columns, rendered from the float columns the loop filled.\<close>

definition lat_cells :: "pyfloat list \<times> pyfloat list \<Rightarrow> cell list" where
  "lat_cells ll = map (\<lambda>x. Some (fmt_one x)) (fst ll)"

definition lon_cells :: "pyfloat list \<times> pyfloat list \<Rightarrow> cell list" where
  "lon_cells ll = map (\<lambda>x. Some (fmt_one x)) (snd ll)"

definition lat_lon_cells :: "pyfloat list \<times> pyfloat list \<Rightarrow> cell list" where
  "lat_lon_cells ll = map (\<lambda>(a, b). Some (fmt_pair a b)) (zip (fst ll) (snd ll))"

definition is_digit :: "char \<Rightarrow> bool" where
  "is_digit c = (c \<in> set ''0123456789'')"

text \<open>
  A decimal string with exactly six digits after the point: an optional minus sign, at
  least one digit, the point, six digits, and nothing else.
\<close>

definition is_dec6 :: "string \<Rightarrow> bool" where
  "is_dec6 s =
     (let body = (case s of [] \<Rightarrow> [] | c # r \<Rightarrow> if c = CHR ''-'' then r else s);
          whole = takeWhile is_digit body;
          rest = dropWhile is_digit body
      in whole \<noteq> [] \<and>
         (case rest of [] \<Rightarrow> False
          | p # frac \<Rightarrow> p = CHR ''.'' \<and> length frac = 6 \<and> list_all is_digit frac))"

definition rendered :: "string \<Rightarrow> bool" where
  "rendered s = (is_dec6 s \<or> s = ''inf'' \<or> s = ''-inf'')"

definition row_empty :: "cell \<Rightarrow> cell \<Rightarrow> cell \<Rightarrow> bool" where
  "row_empty a b c = (a = Some [] \<and> b = Some [] \<and> c = Some [])"

text \<open>
  A row with coordinates: \<open>lat\<close> and \<open>lon\<close> are texts accepted by \<open>ok\<close> and \<open>lat_lon\<close>
  is the two joined by a comma.
\<close>

definition row_filled :: "(string \<Rightarrow> bool) \<Rightarrow> cell \<Rightarrow> cell \<Rightarrow> cell \<Rightarrow> bool" where
  "row_filled ok a b c =
     (case a of None \<Rightarrow> False
      | Some x \<Rightarrow> (case b of None \<Rightarrow> False
                   | Some y \<Rightarrow> ok x \<and> ok y \<and> c = Some (x @ '','' @ y)))"

definition dfm_inf :: frame where
  "dfm_inf = [(''nombre'', [Some ''Heron'']), (''lat'', [Some ''inf'']), (''lon'', [Some ''20''])]"

definition df_heron :: frame where
  "df_heron = [(''species'', [Some ''Heron''])]"

text \<open>An original column is kept when the enriched table has it under its name with its cells.\<close>

definition frame_kept :: "frame \<Rightarrow> frame \<Rightarrow> bool" where
  "frame_kept df out = list_all (\<lambda>col. get_col out (fst col) = Inr (snd col)) df"

definition df_clash :: frame where
  "df_clash =
     [(''species'', [Some ''dodo'']), (''lat'', [Some ''x'']), (''_species_norm'', [Some ''y''])]"

definition matched :: "master \<Rightarrow> string \<Rightarrow> bool" where
  "matched master k = (case master k of None \<Rightarrow> False | Some cs \<Rightarrow> cs \<noteq> [])"

text \<open>
  The place of a row's draw in the sequence, counted from 0, if the draws are consumed
  species by species in ascending order of the normalized names and, within a species, row
  by row in table order: the number of rows of matched species with a smaller name, plus
  the number of earlier rows of the same species.
\<close>

definition draw_position :: "master \<Rightarrow> string list \<Rightarrow> nat \<Rightarrow> nat" where
  "draw_position master norms i =
     length (filter (\<lambda>j. matched master (norms ! j) \<and> norms ! j < norms ! i) [0..<length norms])
     + length (filter (\<lambda>j. norms ! j = norms ! i) [0..<i])"

text \<open>The number of draws the loop makes for a list of species.\<close>

fun drawn :: "master \<Rightarrow> string list \<Rightarrow> string list \<Rightarrow> nat" where
  "drawn master norms [] = 0"
| "drawn master norms (k # ks) =
     (if matched master k then length (rows_of norms k) else 0) + drawn master norms ks"

definition master_two :: master where
  "master_two =
     [''heron'' \<mapsto> [(Finite False 1 0, Finite False 1 0), (Finite False 2 0, Finite False 2 0)],
      ''dodo'' \<mapsto> [(Finite False 3 0, Finite False 3 0), (Finite False 4 0, Finite False 4 0)]]"

text \<open>
  The rows of a frame in another order: row \<open>i\<close> of the result is row \<open>p ! i\<close> of the
  frame.
\<close>

definition permute_rows :: "nat list \<Rightarrow> frame \<Rightarrow> frame" where
  "permute_rows p df = map (\<lambda>col. (fst col, map (\<lambda>i. snd col ! i) p)) df"

text \<open>
  A table of two herons followed by two dodos, and the same table with its first row, a
  heron, and its last row, a dodo, exchanged.
\<close>

definition df_perm_a :: frame where
  "df_perm_a =
     [(''id'', [Some ''r0'', Some ''r1'', Some ''r2'', Some ''r3'']),
      (''species'', [Some ''Heron'', Some ''Heron'', Some ''Dodo'', Some ''Dodo''])]"

definition df_perm_b :: frame where
  "df_perm_b = permute_rows [3, 1, 2, 0] df_perm_a"

definition out_perm_a :: frame where
  "out_perm_a =
     [(''id'', [Some ''r0'', Some ''r1'', Some ''r2'', Some ''r3'']),
      (''species'', [Some ''Heron'', Some ''Heron'', Some ''Dodo'', Some ''Dodo'']),
      (''lat'', [Some ''1.000000'', Some ''2.000000'', Some ''3.000000'', Some ''4.000000'']),
      (''lopnong'', [Some ''1.000000'', Some ''2.000000'', Some ''3.000000'', Some ''4.000000'']),
      (''lat_lon'', [Some ''1.000000,1.000000'', Some ''2.000000,2.000000'',
                     Some ''3.000000,3.000000'', Some ''4.000000,4.000000''])]"

definition out_perm_b :: frame where
  "out_perm_b =
     [(''id'', [Some ''r3'', Some ''r1'', Some ''r2'', Some ''r0'']),
      (''species'', [Some ''Dodo'', Some ''Heron'', Some ''Dodo'', Some ''Heron'']),
      (''lat'', [Some ''3.000000'', Some ''1.000000'', Some ''4.000000'', Some ''2.000000'']),
      (''lopnong'', [Some ''3.000000'', Some ''1.000000'', Some ''4.000000'', Some ''2.000000'']),
      (''lat_lon'', [Some ''3.000000,3.000000'', Some ''1.000000,1.000000'',
                     Some ''4.000000,4.000000'', Some ''2.000000,2.000000''])]"

definition dfm_na :: frame where
  "dfm_na =
     [(''Nombre de Ave'', [Some ''Heron'', Some ''Heron (juvenile)'']),
      (''Latitud'', [Some ''N/A'', Some ''10'']),
      (''Lopnong'', [Some ''5'', Some ''20''])]"

definition df_three :: frame where
  "df_three = [(''Especie'', [Some ''Heron'', Some ''Heron'', Some ''Heron''])]"

section \<open>Lemmas\<close>

lemmas norm_eval =
  normalize_species_def isna_def paren_match_def isspace_def strip_def ascii_casefold_def

lemmas find_col_eval =
  find_col_def columns_def header_norm_def nombre_candidates_def lat_candidates_def
  lon_candidates_def species_candidates_def

lemmas load_master_eval =
  load_master_def get_col_def to_numeric_def parse_small_def dropna_rows_def str_isna_def
  isnan_def build_master_def groupby_groups_def rows_of_def

lemma replicate_numeral: "replicate (numeral k) x = x # replicate (pred_numeral k) x"
  by (simp add: numeral_eq_Suc)

lemma format_6f_simps:
  "format_6f (Finite s m e) =
     (if s then ''-'' else []) @ decimal (scaled6 m e div 10 ^ 6) @ ''.'' @
     pad6 (decimal (scaled6 m e mod 10 ^ 6))"
  "format_6f (Infinite s) = (if s then ''-inf'' else ''inf'')"
  "format_6f NaN = ''nan''"
  by (simp_all add: format_6f_def)

lemmas format_eval =
  format_6f_simps scaled6_def pad6_def decimal.simps digit_char_def replicate_numeral
  round_half_even_def

lemma dict_set_map_known:
  "c \<in> set ks \<Longrightarrow> dict_set (map (\<lambda>c. (c, h c)) ks) c (h c) = map (\<lambda>c. (c, h c)) ks"
  by (induction ks) auto

lemma dict_set_map_new:
  "c \<notin> set ks \<Longrightarrow> dict_set (map (\<lambda>c. (c, h c)) ks) c (h c) = map (\<lambda>c. (c, h c)) (ks @ [c])"
  by (induction ks) auto

lemma find_map_conv: "find P (map f xs) = map_option f (find (P \<circ> f) xs)"
  by (induction xs) auto

lemma find_skip_repeated:
  assumes "c \<in> set ks"
  shows "find P (ks @ c # cs) = find P (ks @ cs)"
proof (cases "P c")
  case True
  have "\<And>ys. find P (ks @ ys) = find P ks"
    using assms True by (induction ks) auto
  then show ?thesis by simp
next
  case False
  then show ?thesis by (induction ks) auto
qed

lemma find_norm_map:
  "find Q (foldl (\<lambda>m c. dict_set m c (h c)) (map (\<lambda>c. (c, h c)) ks) cs)
     = find Q (map (\<lambda>c. (c, h c)) (ks @ cs))"
proof (induction cs arbitrary: ks)
  case Nil
  then show ?case by simp
next
  case (Cons c cs)
  show ?case
  proof (cases "c \<in> set ks")
    case True
    have "find Q (map (\<lambda>c. (c, h c)) (ks @ c # cs)) = find Q (map (\<lambda>c. (c, h c)) (ks @ cs))"
      unfolding find_map_conv by (simp only: find_skip_repeated [OF True])
    with True Cons.IH [of ks] show ?thesis
      by (simp add: dict_set_map_known)
  next
    case False
    with Cons.IH [of "ks @ [c]"] show ?thesis
      by (simp add: dict_set_map_new)
  qed
qed

lemma find_col_find:
  "find_col cf df cands =
     (case find (\<lambda>c. header_norm cf c \<in> set (map cf cands)) (columns df) of
        Some c \<Rightarrow> Inr c
      | None \<Rightarrow> Inl (KeyError_find_col cands (columns df)))"
proof -
  have "find (\<lambda>(col, norm). norm \<in> set (map cf cands))
          (foldl (\<lambda>m c. dict_set m c (header_norm cf c)) [] (columns df))
        = find (\<lambda>(col, norm). norm \<in> set (map cf cands))
            (map (\<lambda>c. (c, header_norm cf c)) (columns df))"
    using find_norm_map [of _ "header_norm cf" "[]" "columns df"] by simp
  then show ?thesis
    by (simp add: find_col_def Let_def find_map_conv comp_def split: option.splits)
qed

lemma find_Some_split:
  "find P xs = Some c \<Longrightarrow> \<exists>pre post. xs = pre @ c # post \<and> P c \<and> \<not> list_ex P pre"
proof (induction xs)
  case Nil
  then show ?case by simp
next
  case (Cons x xs)
  show ?case
  proof (cases "P x")
    case True
    with Cons.prems have "x = c" by simp
    with True have "x # xs = [] @ c # xs \<and> P c \<and> \<not> list_ex P []" by simp
    then show ?thesis by blast
  next
    case False
    with Cons obtain pre post where "xs = pre @ c # post" "P c" "\<not> list_ex P pre" by auto
    with False have "x # xs = (x # pre) @ c # post \<and> P c \<and> \<not> list_ex P (x # pre)" by simp
    then show ?thesis by blast
  qed
qed

lemma find_col_cases:
  "(case find_col cf df candidates of
      Inr col \<Rightarrow>
        (\<exists>pre post. columns df = pre @ col # post
           \<and> header_norm cf col \<in> set (map cf candidates)
           \<and> \<not> list_ex (\<lambda>c. header_norm cf c \<in> set (map cf candidates)) pre)
    | Inl e \<Rightarrow>
        e = KeyError_find_col candidates (columns df)
        \<and> \<not> list_ex (\<lambda>c. header_norm cf c \<in> set (map cf candidates)) (columns df))
   \<and> (isl (find_col cf df candidates)
        \<longleftrightarrow> \<not> (\<exists>c \<in> set (columns df). header_norm cf c \<in> set (map cf candidates)))"
proof (cases "find (\<lambda>c. header_norm cf c \<in> set (map cf candidates)) (columns df)")
  case None
  then have "\<not> list_ex (\<lambda>c. header_norm cf c \<in> set (map cf candidates)) (columns df)"
    by (simp add: find_None_iff list_ex_iff)
  with None show ?thesis
    by (simp add: find_col_find list_ex_iff)
next
  case (Some c)
  from find_Some_split [OF Some] obtain pre post where
    "columns df = pre @ c # post" "header_norm cf c \<in> set (map cf candidates)"
    "\<not> list_ex (\<lambda>c. header_norm cf c \<in> set (map cf candidates)) pre"
    by blast
  with Some show ?thesis
    by (auto simp: find_col_find)
qed

lemma find_col_spaced:
  "find_col ascii_casefold [(''id'', []), (header_spaced, []), (''nombre'', [])] species_candidates
     = Inr header_spaced"
  by (simp add: header_spaced_def find_col_eval norm_eval)

lemma find_col_underscore:
  "find_col ascii_casefold [(''id'', []), (''Nombre_de_ave'', [])] species_candidates
     = Inl (KeyError_find_col species_candidates [''id'', ''Nombre_de_ave''])"
  by (simp add: find_col_eval norm_eval)

lemma find_col_candidate_as_written:
  "find_col ascii_casefold [(''nombre de ave'', [])] [''Nombre  de ave'']
     = Inl (KeyError_find_col [''Nombre  de ave''] [''nombre de ave''])"
  by (simp add: find_col_eval norm_eval)

lemma strip_collapse_spaced: "strip (collapse_ws header_spaced) = ''Nombre de AVE''"
  by (simp add: header_spaced_def norm_eval)

lemma filter_indices:
  "map ((!) xs) (filter (\<lambda>i. P (xs ! i)) [0..<length xs]) = filter P xs"
proof (induction xs rule: rev_induct)
  case Nil
  then show ?case by simp
next
  case (snoc x xs)
  have a: "filter (\<lambda>i. P ((xs @ [x]) ! i)) [0..<length xs] = filter (\<lambda>i. P (xs ! i)) [0..<length xs]"
    by (rule filter_cong) (auto simp: nth_append)
  have b: "map ((!) (xs @ [x])) (filter (\<lambda>i. P (xs ! i)) [0..<length xs])
      = map ((!) xs) (filter (\<lambda>i. P (xs ! i)) [0..<length xs])"
    by (rule map_cong) (auto simp: nth_append)
  show ?case
    by (simp add: a b snoc.IH)
qed

lemma rows_of_fst:
  "map (\<lambda>i. snd (rows ! i)) (rows_of (map fst rows) k) = map snd (filter (\<lambda>r. fst r = k) rows)"
proof -
  have "rows_of (map fst rows) k = filter (\<lambda>i. fst (rows ! i) = k) [0..<length rows]"
    unfolding rows_of_def by (rule filter_cong) auto
  moreover have "map (\<lambda>i. snd (rows ! i)) ixs = map snd (map ((!) rows) ixs)" for ixs
    by simp
  ultimately show ?thesis
    using filter_indices [of rows "\<lambda>r. fst r = k"] by (simp del: map_map)
qed

lemma foldl_fill:
  "foldl (\<lambda>m (name, idx). let cs = f idx in if cs \<noteq> [] then m(name \<mapsto> cs) else m) m0
         (map (\<lambda>k. (k, r k)) ks) k
   = (if k \<in> set ks \<and> f (r k) \<noteq> [] then Some (f (r k)) else m0 k)"
  by (induction ks arbitrary: m0) (auto simp: Let_def)

lemma build_master_lookup:
  "build_master rows k =
     (if filter (\<lambda>r. fst r = k) rows = [] then None
      else Some (map snd (filter (\<lambda>r. fst r = k) rows)))"
proof -
  have "k \<in> fst ` set rows \<longleftrightarrow> filter (\<lambda>r. fst r = k) rows \<noteq> []"
    by (auto simp: filter_empty_conv)
  then show ?thesis
    unfolding build_master_def groupby_groups_def
    using foldl_fill [of "\<lambda>idx. map (\<lambda>i. snd (rows ! i)) idx" Map.empty
            "rows_of (map fst rows)" "sort (remdups (map fst rows))" k]
    by (simp add: rows_of_fst)
qed

lemma load_master_Inr:
  assumes "load_master cf parse dfm = Inr m"
  shows "\<exists>col_nombre col_lat col_lon nombre lat_raw lon_raw.
           find_col cf dfm nombre_candidates = Inr col_nombre
         \<and> find_col cf dfm lat_candidates = Inr col_lat
         \<and> find_col cf dfm lon_candidates = Inr col_lon
         \<and> get_col dfm col_nombre = Inr nombre
         \<and> get_col dfm col_lat = Inr lat_raw
         \<and> get_col dfm col_lon = Inr lon_raw
         \<and> m = build_master (clean_rows cf parse nombre lat_raw lon_raw)"
  using assms unfolding load_master_def clean_rows_def
  by (auto split: sum.splits)

lemma clean_rows_valid:
  "r \<in> set (clean_rows cf parse nombre lat_raw lon_raw) \<Longrightarrow>
     \<not> isnan (fst (snd r)) \<and> \<not> isnan (snd (snd r))"
  by (auto simp: clean_rows_def dropna_rows_def)

lemma load_master_valid:
  assumes "load_master cf parse dfm = Inr m" and "m k = Some cs"
  shows "cs \<noteq> [] \<and> list_all (\<lambda>(lat, lon). \<not> isnan lat \<and> \<not> isnan lon) cs"
proof -
  from load_master_Inr [OF assms(1)] obtain nombre lat_raw lon_raw where
    m: "m = build_master (clean_rows cf parse nombre lat_raw lon_raw)" by blast
  let ?rows = "clean_rows cf parse nombre lat_raw lon_raw"
  from assms(2) m have ne: "filter (\<lambda>r. fst r = k) ?rows \<noteq> []"
    and cs: "cs = map snd (filter (\<lambda>r. fst r = k) ?rows)"
    by (auto simp: build_master_lookup split: if_splits)
  have "list_all (\<lambda>(lat, lon). \<not> isnan lat \<and> \<not> isnan lon) cs"
    unfolding cs list_all_iff using clean_rows_valid [of _ cf parse nombre lat_raw lon_raw]
    by (auto simp: case_prod_beta)
  with ne cs show ?thesis by simp
qed

lemma load_master_mixed:
  "load_master ascii_casefold parse_small dfm_mixed =
     Inr [''heron'' \<mapsto> [(Finite False 10 0, Finite False 20 0), (Finite False 11 0, Finite False 21 0)]]"
  by (simp add: dfm_mixed_def find_col_eval norm_eval load_master_eval)

lemma main_Inr:
  assumes "main cf parse int1 intN df dfm rng = Inr out"
  shows "\<exists>species_col master result rng' species lat.
           find_col cf df species_candidates = Inr species_col
         \<and> load_master cf parse dfm = Inr master
         \<and> assign_coords cf int1 intN df species_col master rng = Inr (result, rng')
         \<and> get_col df species_col = Inr species
         \<and> get_col result ''lat'' = Inr lat
         \<and> enriched out = result
         \<and> no_match_file out =
              (if no_match_of master (map (normalize_species cf) species) \<noteq> []
               then Some (no_match_of master (map (normalize_species cf) species)) else None)
         \<and> total out = length species
         \<and> asignadas out = length (filter (\<lambda>c. c \<noteq> Some []) lat)
         \<and> sin_match out = length (no_match_of master (map (normalize_species cf) species))"
  using assms unfolding main_def
  by (auto simp: Let_def split: sum.splits prod.splits)

lemma set_no_match_of:
  "set (no_match_of master norms) = set norms - {[]} - dom master"
  by (auto simp: no_match_of_def)

lemma strict_sorted_no_match_of:
  "sorted_wrt (<) (no_match_of master norms)"
  by (simp add: no_match_of_def strict_sorted_iff)

lemmas assign_eval =
  assign_coords_def assign_floats_def assign_group_def assign_row_def set_col_def drop_col_def
  fmt_pair_def fmt_one_def counter_int1_def counter_intN_def

lemma load_master_heron:
  "load_master ascii_casefold parse_small dfm_heron =
     Inr [''heron'' \<mapsto> [(Finite False 10 0, Finite False 20 0)]]"
  by (simp add: dfm_heron_def find_col_eval norm_eval load_master_eval)

lemma find_col_demo: "find_col ascii_casefold df_demo species_candidates = Inr ''Species''"
  by (simp add: df_demo_def find_col_eval norm_eval)

lemma assign_floats_demo:
  "assign_floats counter_int1 counter_intN [''heron'' \<mapsto> [(Finite False 10 0, Finite False 20 0)]]
     [''heron'', ''dodo'', [], ''dodo''] (0::nat)
   = Inr (([Finite False 10 0, NaN, NaN, NaN], [Finite False 20 0, NaN, NaN, NaN]), 1)"
  by (simp add: groupby_groups_def rows_of_def assign_eval)

lemma assign_coords_demo:
  "assign_coords ascii_casefold counter_int1 counter_intN df_demo ''Species''
     [''heron'' \<mapsto> [(Finite False 10 0, Finite False 20 0)]] (0::nat)
   = Inr ([(''id'', [Some ''r0'', Some ''r1'', Some ''r2'', Some ''r3'']),
           (''Species'', [Some ''Heron'', Some ''Dodo'', None, Some ''dodo (extinct)'']),
           (''lat'', [Some ''10.000000'', Some [], Some [], Some []]),
           (''lopnong'', [Some ''20.000000'', Some [], Some [], Some []]),
           (''lat_lon'', [Some ''10.000000,20.000000'', Some [], Some [], Some []])], 1)"
  by (simp add: df_demo_def assign_coords_def get_col_def norm_eval assign_floats_demo
      set_col_def drop_col_def fmt_pair_def fmt_one_def isnan_def format_eval)

lemma main_demo:
  "main ascii_casefold parse_small counter_int1 counter_intN df_demo dfm_heron (0::nat) =
     Inr \<lparr> enriched =
             [(''id'', [Some ''r0'', Some ''r1'', Some ''r2'', Some ''r3'']),
              (''Species'', [Some ''Heron'', Some ''Dodo'', None, Some ''dodo (extinct)'']),
              (''lat'', [Some ''10.000000'', Some [], Some [], Some []]),
              (''lopnong'', [Some ''20.000000'', Some [], Some [], Some []]),
              (''lat_lon'', [Some ''10.000000,20.000000'', Some [], Some [], Some []])],
           no_match_file = Some [''dodo''], total = 4, asignadas = 1, sin_match = 1 \<rparr>"
  unfolding main_def find_col_demo load_master_heron
  by (simp add: assign_coords_demo)
     (simp add: df_demo_def get_col_def norm_eval no_match_of_def)

lemma in_range_append [simp]: "in_range (es @ fs) \<longleftrightarrow> in_range es \<and> in_range fs"
  by (simp add: in_range_def)

lemma store_append [simp]: "store (es @ fs) ll = store fs (store es ll)"
  by (induction es ll rule: store.induct) auto

lemma assign_rows_store:
  "assign_rows cs rc ll =
     (if in_range (map (\<lambda>(r, c). (r, cs, c)) rc) then Inr (store (map (\<lambda>(r, c). (r, cs, c)) rc) ll)
      else Inl IndexError)"
  by (induction cs rc ll rule: assign_rows.induct)
     (auto simp: assign_row_def in_range_def)

lemma assign_group_store:
  assumes "master k = Some cs" and "cs \<noteq> []"
  shows "assign_group int1 intN master (k, rows) (ll, g) =
     (if in_range (group_entries cs rows (draw_choices int1 intN g (length cs) (length rows)))
      then Inr (store (group_entries cs rows (draw_choices int1 intN g (length cs) (length rows))) ll,
                draw_state int1 intN g (length cs) (length rows))
      else Inl IndexError)"
proof (cases "length rows = 1")
  case True
  then obtain r where r: "rows = [r]"
    by (cases rows) auto
  show ?thesis
    using assms by (simp add: assign_group_def r draw_choices_def draw_state_def
        group_entries_def assign_row_def in_range_def)
next
  case False
  then show ?thesis
    using assms by (simp add: assign_group_def draw_choices_def draw_state_def
        group_entries_def assign_rows_store)
qed

lemma assign_group_skip:
  assumes "master k = None \<or> master k = Some []"
  shows "assign_group int1 intN master (k, rows) st = Inr st"
  using assms by (auto simp: assign_group_def)

lemma assign_loop_schedule:
  "assign_loop int1 intN master (map (\<lambda>k. (k, rows_of norms k)) ks) (ll, g) =
     (if in_range (fst (schedule int1 intN master norms ks g))
      then Inr (store (fst (schedule int1 intN master norms ks g)) ll,
                snd (schedule int1 intN master norms ks g))
      else Inl IndexError)"
proof (induction ks arbitrary: ll g)
  case Nil
  then show ?case by (simp add: in_range_def)
next
  case (Cons k ks)
  show ?case
  proof (cases "master k = None \<or> master k = Some []")
    case True
    then show ?thesis
      using Cons.IH [of ll g] by (auto simp: assign_group_skip)
  next
    case False
    then obtain cs where cs: "master k = Some cs" "cs \<noteq> []" by auto
    show ?thesis
      using cs Cons.IH by (simp add: assign_group_store)
  qed
qed

lemma assign_floats_schedule:
  "assign_floats int1 intN master norms rng =
     (if in_range (fst (schedule int1 intN master norms (sort (remdups norms)) rng))
      then Inr (store (fst (schedule int1 intN master norms (sort (remdups norms)) rng))
                  (replicate (length norms) NaN, replicate (length norms) NaN),
                snd (schedule int1 intN master norms (sort (remdups norms)) rng))
      else Inl IndexError)"
  unfolding assign_floats_def groupby_groups_def by (rule assign_loop_schedule)

lemma length_store [simp]:
  "length (fst (store es ll)) = length (fst ll)" "length (snd (store es ll)) = length (snd ll)"
  by (induction es ll rule: store.induct) auto

lemma store_untouched:
  "r \<notin> fst ` set es \<Longrightarrow>
     fst (store es ll) ! r = fst ll ! r \<and> snd (store es ll) ! r = snd ll ! r"
  by (induction es ll rule: store.induct) auto

lemma store_touched:
  assumes "distinct (map fst es)" and "(r, cs, c) \<in> set es"
    and "r < length (fst ll)" and "r < length (snd ll)"
  shows "fst (store es ll) ! r = fst (cs ! c) \<and> snd (store es ll) ! r = snd (cs ! c)"
  using assms
proof (induction es ll rule: store.induct)
  case (1 ll)
  then show ?case by simp
next
  case (2 r' cs' c' es ll)
  show ?case
  proof (cases "(r, cs, c) = (r', cs', c')")
    case True
    with "2.prems" have "r \<notin> fst ` set es" by auto
    from store_untouched [OF this] True "2.prems" show ?thesis by simp
  next
    case False
    with "2.prems" have "(r, cs, c) \<in> set es" by auto
    with "2.IH" "2.prems" show ?thesis by simp
  qed
qed

lemma set_rows_of: "set (rows_of norms k) = {i. i < length norms \<and> norms ! i = k}"
  by (auto simp: rows_of_def)

lemma distinct_rows_of: "distinct (rows_of norms k)"
  by (simp add: rows_of_def)

lemma fst_group_entries:
  "map fst (group_entries cs rows choices) = take (length choices) rows"
proof -
  have "map fst (group_entries cs rows choices) = map fst (zip rows choices)"
    by (simp add: group_entries_def case_prod_beta)
  then show ?thesis by (simp add: map_fst_zip_take min_def)
qed

lemma group_entries_mem:
  "(r, cs', c) \<in> set (group_entries cs rows choices) \<Longrightarrow> cs' = cs \<and> r \<in> set rows"
  by (auto simp: group_entries_def dest: set_zip_leftD)

lemma schedule_entry:
  "(r, cs, c) \<in> set (fst (schedule int1 intN master norms ks g)) \<Longrightarrow>
     r < length norms \<and> norms ! r \<in> set ks \<and> master (norms ! r) = Some cs \<and> cs \<noteq> []"
proof (induction ks arbitrary: g)
  case Nil
  then show ?case by simp
next
  case (Cons k ks)
  show ?case
  proof (cases "master k = None \<or> master k = Some []")
    case True
    with Cons.prems have "(r, cs, c) \<in> set (fst (schedule int1 intN master norms ks g))"
      by auto
    from Cons.IH [OF this] show ?thesis by simp
  next
    case False
    then obtain ck where ck: "master k = Some ck" "ck \<noteq> []" by auto
    let ?n = "length (rows_of norms k)"
    from Cons.prems ck consider
        "(r, cs, c) \<in> set (group_entries ck (rows_of norms k) (draw_choices int1 intN g (length ck) ?n))"
      | "(r, cs, c) \<in> set (fst (schedule int1 intN master norms ks (draw_state int1 intN g (length ck) ?n)))"
      by auto
    then show ?thesis
    proof cases
      case 1
      from group_entries_mem [OF 1] ck show ?thesis
        by (auto simp: set_rows_of)
    next
      case 2
      from Cons.IH [OF 2] show ?thesis by simp
    qed
  qed
qed

lemma schedule_rows_distinct:
  "distinct ks \<Longrightarrow> distinct (map fst (fst (schedule int1 intN master norms ks g)))"
proof (induction ks arbitrary: g)
  case Nil
  then show ?case by simp
next
  case (Cons k ks)
  show ?case
  proof (cases "master k = None \<or> master k = Some []")
    case True
    with Cons show ?thesis by auto
  next
    case False
    then obtain ck where ck: "master k = Some ck" "ck \<noteq> []" by auto
    let ?n = "length (rows_of norms k)"
    let ?rest = "fst (schedule int1 intN master norms ks (draw_state int1 intN g (length ck) ?n))"
    have d1: "distinct (take (length (draw_choices int1 intN g (length ck) ?n)) (rows_of norms k))"
      by (simp add: distinct_rows_of)
    have d2: "distinct (map fst ?rest)"
      using Cons by simp
    have "r \<notin> fst ` set ?rest" if "r \<in> set (rows_of norms k)" for r
    proof
      assume "r \<in> fst ` set ?rest"
      then obtain cs c where "(r, cs, c) \<in> set ?rest" by force
      from schedule_entry [OF this] have "norms ! r \<in> set ks" by simp
      moreover from that have "norms ! r = k" by (simp add: set_rows_of)
      ultimately show False using Cons.prems by simp
    qed
    then have d3: "set (take (length (draw_choices int1 intN g (length ck) ?n)) (rows_of norms k))
        \<inter> fst ` set ?rest = {}"
      by (auto dest: in_set_takeD)
    from d1 d2 d3 ck show ?thesis
      by (simp add: fst_group_entries)
  qed
qed

lemma draw_choices_ok:
  assumes "rng_ok int1 intN" and "0 < k"
  shows "length (draw_choices int1 intN g k n) = n"
    and "list_all (\<lambda>c. c < k) (draw_choices int1 intN g k n)"
  using assms by (auto simp: rng_ok_def draw_choices_def)

lemma group_entries_ok:
  assumes "length choices = length rows" and "list_all (\<lambda>c. c < length cs) choices"
  shows "in_range (group_entries cs rows choices)"
    and "r \<in> set rows \<Longrightarrow> \<exists>c. (r, cs, c) \<in> set (group_entries cs rows choices)"
proof -
  show "in_range (group_entries cs rows choices)"
    using assms(2) by (auto simp: in_range_def group_entries_def list_all_iff dest: set_zip_rightD)
  show "\<exists>c. (r, cs, c) \<in> set (group_entries cs rows choices)" if "r \<in> set rows"
  proof -
    from that obtain j where j: "j < length rows" "rows ! j = r"
      by (auto simp: in_set_conv_nth)
    with assms(1) have "(r, choices ! j) \<in> set (zip rows choices)"
      by (auto simp: set_zip)
    then have "(r, cs, choices ! j) \<in> set (group_entries cs rows choices)"
      by (force simp: group_entries_def)
    then show ?thesis ..
  qed
qed

lemma schedule_ok:
  assumes "rng_ok int1 intN"
  shows "in_range (fst (schedule int1 intN master norms ks g))"
    and "r < length norms \<Longrightarrow> norms ! r \<in> set ks \<Longrightarrow> master (norms ! r) = Some cs \<Longrightarrow> cs \<noteq> [] \<Longrightarrow>
           \<exists>c. (r, cs, c) \<in> set (fst (schedule int1 intN master norms ks g))"
proof -
  show "in_range (fst (schedule int1 intN master norms ks g))"
  proof (induction ks arbitrary: g)
    case Nil
    then show ?case by (simp add: in_range_def)
  next
    case (Cons k ks)
    show ?case
    proof (cases "master k = None \<or> master k = Some []")
      case True
      with Cons show ?thesis by auto
    next
      case False
      then obtain ck where ck: "master k = Some ck" "ck \<noteq> []" by auto
      from ck have "0 < length ck" by simp
      from draw_choices_ok [OF assms this] group_entries_ok(1)
      have "in_range (group_entries ck (rows_of norms k)
              (draw_choices int1 intN g (length ck) (length (rows_of norms k))))"
        by blast
      with ck Cons show ?thesis by simp
    qed
  qed
  show "\<exists>c. (r, cs, c) \<in> set (fst (schedule int1 intN master norms ks g))"
    if "r < length norms" "norms ! r \<in> set ks" "master (norms ! r) = Some cs" "cs \<noteq> []"
    using that(2)
  proof (induction ks arbitrary: g)
    case Nil
    then show ?case by simp
  next
    case (Cons k ks)
    show ?case
    proof (cases "norms ! r = k")
      case True
      with that have ck: "master k = Some cs" "cs \<noteq> []" by auto
      from ck have "0 < length cs" by simp
      from True that(1) have "r \<in> set (rows_of norms k)"
        by (simp add: set_rows_of)
      from group_entries_ok(2) [OF _ _ this] draw_choices_ok [OF assms \<open>0 < length cs\<close>]
      obtain c where "(r, cs, c) \<in> set (group_entries cs (rows_of norms k)
              (draw_choices int1 intN g (length cs) (length (rows_of norms k))))"
        by blast
      with ck show ?thesis by auto
    next
      case False
      with Cons.prems have "norms ! r \<in> set ks" by simp
      from Cons.IH [OF this] show ?thesis
        by (cases "master k") (auto split: if_splits)
    qed
  qed
qed

text \<open>What the loop leaves in the two float columns.\<close>

lemma assign_floats_rows:
  assumes "assign_floats int1 intN master norms rng = Inr (ll, rng')"
  shows "length (fst ll) = length norms \<and> length (snd ll) = length norms"
    and "i < length norms \<Longrightarrow>
           (fst ll ! i = NaN \<and> snd ll ! i = NaN)
         \<or> (\<exists>cs c. master (norms ! i) = Some cs \<and> c < length cs
               \<and> fst ll ! i = fst (cs ! c) \<and> snd ll ! i = snd (cs ! c))"
proof -
  let ?es = "fst (schedule int1 intN master norms (sort (remdups norms)) rng)"
  let ?nan = "(replicate (length norms) NaN, replicate (length norms) NaN)"
  from assms have r: "in_range ?es" and ll: "ll = store ?es ?nan"
    by (auto simp: assign_floats_schedule split: if_splits)
  show "length (fst ll) = length norms \<and> length (snd ll) = length norms"
    by (simp add: ll)
  show "(fst ll ! i = NaN \<and> snd ll ! i = NaN)
         \<or> (\<exists>cs c. master (norms ! i) = Some cs \<and> c < length cs
               \<and> fst ll ! i = fst (cs ! c) \<and> snd ll ! i = snd (cs ! c))"
    if i: "i < length norms"
  proof (cases "i \<in> fst ` set ?es")
    case False
    from store_untouched [OF this, of ?nan] i show ?thesis
      by (simp add: ll)
  next
    case True
    then obtain cs c where e: "(i, cs, c) \<in> set ?es" by force
    from schedule_entry [OF e] have m: "master (norms ! i) = Some cs" by simp
    from r e have c: "c < length cs"
      by (auto simp: in_range_def list_all_iff)
    have "distinct (map fst ?es)"
      by (rule schedule_rows_distinct) simp
    from store_touched [OF this e, of ?nan] i
    have "fst ll ! i = fst (cs ! c) \<and> snd ll ! i = snd (cs ! c)"
      by (simp add: ll)
    with m c show ?thesis by blast
  qed
qed

lemma assign_floats_ok:
  assumes "rng_ok int1 intN"
  shows "\<exists>ll rng'. assign_floats int1 intN master norms rng = Inr (ll, rng')
      \<and> (\<forall>i < length norms.
            case master (norms ! i) of
              None \<Rightarrow> fst ll ! i = NaN \<and> snd ll ! i = NaN
            | Some cs \<Rightarrow>
                if cs = [] then fst ll ! i = NaN \<and> snd ll ! i = NaN
                else \<exists>c < length cs. fst ll ! i = fst (cs ! c) \<and> snd ll ! i = snd (cs ! c))"
proof -
  let ?es = "fst (schedule int1 intN master norms (sort (remdups norms)) rng)"
  let ?nan = "(replicate (length norms) NaN, replicate (length norms) NaN)"
  let ?ll = "store ?es ?nan"
  have r: "in_range ?es"
    by (rule schedule_ok(1) [OF assms])
  then have a: "assign_floats int1 intN master norms rng
      = Inr (?ll, snd (schedule int1 intN master norms (sort (remdups norms)) rng))"
    by (simp add: assign_floats_schedule)
  have d: "distinct (map fst ?es)"
    by (rule schedule_rows_distinct) simp
  have "case master (norms ! i) of
              None \<Rightarrow> fst ?ll ! i = NaN \<and> snd ?ll ! i = NaN
            | Some cs \<Rightarrow>
                if cs = [] then fst ?ll ! i = NaN \<and> snd ?ll ! i = NaN
                else \<exists>c < length cs. fst ?ll ! i = fst (cs ! c) \<and> snd ?ll ! i = snd (cs ! c)"
    if i: "i < length norms" for i
  proof (cases "\<exists>cs. master (norms ! i) = Some cs \<and> cs \<noteq> []")
    case True
    then obtain cs where cs: "master (norms ! i) = Some cs" "cs \<noteq> []" by blast
    from i have "norms ! i \<in> set (sort (remdups norms))" by simp
    from schedule_ok(2) [where r = i and norms = norms and master = master and cs = cs
          and ks = "sort (remdups norms)" and g = rng, OF assms i this cs]
    obtain c where e: "(i, cs, c) \<in> set ?es"
      by blast
    from r e have c: "c < length cs"
      by (auto simp: in_range_def list_all_iff)
    from store_touched [OF d e, of ?nan] i c cs show ?thesis
      by auto
  next
    case False
    have "i \<notin> fst ` set ?es"
    proof
      assume "i \<in> fst ` set ?es"
      then obtain cs c where "(i, cs, c) \<in> set ?es" by force
      from schedule_entry [OF this] False show False by blast
    qed
    from store_untouched [OF this, of ?nan] i False show ?thesis
      by (auto split: option.splits)
  qed
  with a show ?thesis by blast
qed

subsection \<open>Frames\<close>

lemma map_of_dict_set:
  "map_of (dict_set df k v) k' = (if k' = k then Some v else map_of df k')"
  by (induction df k v rule: dict_set.induct) auto

lemma get_col_set_col:
  "get_col (set_col df k v) k' = (if k' = k then Inr v else get_col df k')"
  by (simp add: get_col_def set_col_def map_of_dict_set)

lemma map_of_drop_col:
  "map_of (drop_col df c) k = (if k = c then None else map_of df k)"
  by (induction df) (auto simp: drop_col_def)

lemma get_col_drop_col:
  "get_col (drop_col df c) k = (if k = c then Inl (KeyError_column k) else get_col df k)"
  by (simp add: get_col_def map_of_drop_col)

lemma dict_set_new: "k \<notin> fst ` set df \<Longrightarrow> dict_set df k v = df @ [(k, v)]"
  by (induction df k v rule: dict_set.induct) auto

lemma set_col_new: "k \<notin> set (columns df) \<Longrightarrow> set_col df k v = df @ [(k, v)]"
  by (simp add: set_col_def columns_def dict_set_new)

lemma columns_dict_set:
  "map fst (dict_set df k v) = (if k \<in> fst ` set df then map fst df else map fst df @ [k])"
  by (induction df k v rule: dict_set.induct) auto

lemma columns_set_col:
  "columns (set_col df k v) = (if k \<in> set (columns df) then columns df else columns df @ [k])"
  by (simp add: set_col_def columns_def columns_dict_set)

lemma columns_drop_col: "columns (drop_col df c) = filter (\<lambda>k. k \<noteq> c) (columns df)"
  by (induction df) (auto simp: drop_col_def columns_def)

lemma drop_col_absent: "c \<notin> set (columns df) \<Longrightarrow> drop_col df c = df"
  by (induction df) (auto simp: drop_col_def columns_def)

lemma drop_col_append: "drop_col (df @ df') c = drop_col df c @ drop_col df' c"
  by (simp add: drop_col_def)

lemma assign_coords_Inr:
  assumes "assign_coords cf int1 intN df species_col master rng = Inr (out, rng')"
  shows "\<exists>species ll.
           get_col df species_col = Inr species
         \<and> assign_floats int1 intN master (map (normalize_species cf) species) rng = Inr (ll, rng')
         \<and> out = drop_col
                   (set_col
                     (set_col
                       (set_col
                         (set_col
                           (set_col
                             (set_col df ''_species_norm''
                                (map Some (map (normalize_species cf) species)))
                             ''lat'' (replicate (length species) None))
                           ''lopnong'' (replicate (length species) None))
                         ''lat_lon'' (lat_lon_cells ll))
                       ''lat'' (lat_cells ll))
                     ''lopnong'' (lon_cells ll))
                   ''_species_norm''"
  using assms unfolding assign_coords_def lat_cells_def lon_cells_def lat_lon_cells_def
  by (auto simp: Let_def split: sum.splits prod.splits)

lemma assign_coords_columns:
  assumes "assign_coords cf int1 intN df species_col master rng = Inr (out, rng')"
  shows "\<exists>species ll.
           get_col df species_col = Inr species
         \<and> assign_floats int1 intN master (map (normalize_species cf) species) rng = Inr (ll, rng')
         \<and> get_col out ''lat'' = Inr (lat_cells ll)
         \<and> get_col out ''lopnong'' = Inr (lon_cells ll)
         \<and> get_col out ''lat_lon'' = Inr (lat_lon_cells ll)"
proof -
  from assign_coords_Inr [OF assms] obtain species ll where
    a: "get_col df species_col = Inr species"
       "assign_floats int1 intN master (map (normalize_species cf) species) rng = Inr (ll, rng')"
    and out: "out = drop_col
                   (set_col
                     (set_col
                       (set_col
                         (set_col
                           (set_col
                             (set_col df ''_species_norm''
                                (map Some (map (normalize_species cf) species)))
                             ''lat'' (replicate (length species) None))
                           ''lopnong'' (replicate (length species) None))
                         ''lat_lon'' (lat_lon_cells ll))
                       ''lat'' (lat_cells ll))
                     ''lopnong'' (lon_cells ll))
                   ''_species_norm''"
    by blast
  have "get_col out ''lat'' = Inr (lat_cells ll)"
       "get_col out ''lopnong'' = Inr (lon_cells ll)"
       "get_col out ''lat_lon'' = Inr (lat_lon_cells ll)"
    unfolding out by (simp_all add: get_col_drop_col get_col_set_col)
  with a show ?thesis by blast
qed

subsection \<open>Rendering\<close>

lemma is_digit_digit_char: "is_digit (digit_char d)"
proof -
  have "d mod 10 < 10" by simp
  then have "d mod 10 = 0 \<or> d mod 10 = 1 \<or> d mod 10 = 2 \<or> d mod 10 = 3 \<or> d mod 10 = 4
      \<or> d mod 10 = 5 \<or> d mod 10 = 6 \<or> d mod 10 = 7 \<or> d mod 10 = 8 \<or> d mod 10 = 9"
    by arith
  then show ?thesis
    unfolding is_digit_def digit_char_def by (elim disjE) simp_all
qed

lemma decimal_digits: "list_all is_digit (decimal n)"
  by (induction n rule: decimal.induct) (subst decimal.simps, auto simp: is_digit_digit_char)

lemma decimal_nonempty: "decimal n \<noteq> []"
  by (subst decimal.simps) simp

lemma length_decimal: "n < 10 ^ k \<Longrightarrow> 0 < k \<Longrightarrow> length (decimal n) \<le> k"
proof (induction k arbitrary: n)
  case 0
  then show ?case by simp
next
  case (Suc k)
  show ?case
  proof (cases "n < 10")
    case True
    then show ?thesis by (subst decimal.simps) simp
  next
    case False
    with Suc.prems have k: "0 < k" by (cases k) auto
    from Suc.prems have "n div 10 < 10 ^ k" by (simp add: less_mult_imp_div_less mult.commute)
    from Suc.IH [OF this k] False show ?thesis
      by (subst decimal.simps) simp
  qed
qed

lemma pad6_decimal:
  assumes "n < 10 ^ 6"
  shows "length (pad6 (decimal n)) = 6" and "list_all is_digit (pad6 (decimal n))"
proof -
  from length_decimal [OF assms] have "length (decimal n) \<le> 6" by simp
  then show "length (pad6 (decimal n)) = 6" by (simp add: pad6_def)
  have "is_digit CHR ''0''" by (simp add: is_digit_def)
  then show "list_all is_digit (pad6 (decimal n))"
    using decimal_digits [of n] by (auto simp: pad6_def list_all_iff)
qed

lemma is_dec6_shape:
  assumes "whole \<noteq> []" "list_all is_digit whole" "length frac = 6" "list_all is_digit frac"
  shows "is_dec6 (whole @ ''.'' @ frac)" and "is_dec6 (''-'' @ whole @ ''.'' @ frac)"
proof -
  have nd: "\<not> is_digit CHR ''.''" "\<not> is_digit CHR ''-''"
    by (simp_all add: is_digit_def)
  have t: "takeWhile is_digit (whole @ CHR ''.'' # frac) = whole"
    and d: "dropWhile is_digit (whole @ CHR ''.'' # frac) = CHR ''.'' # frac"
    using assms(2) nd by (simp_all add: list_all_iff takeWhile_append2 dropWhile_append2)
  obtain w ws where w: "whole = w # ws" using assms(1) by (cases whole) auto
  with assms(2) nd have "w \<noteq> CHR ''-''" by auto
  then show "is_dec6 (whole @ ''.'' @ frac)"
    using t d assms by (simp add: is_dec6_def w)
  show "is_dec6 (''-'' @ whole @ ''.'' @ frac)"
    using t d assms by (simp add: is_dec6_def)
qed

lemma format_6f_finite: "is_dec6 (format_6f (Finite s m e))"
proof -
  have "scaled6 m e mod 10 ^ 6 < 10 ^ 6" by simp
  from pad6_decimal [OF this] decimal_nonempty decimal_digits is_dec6_shape
  show ?thesis by (cases s) (simp_all add: format_6f_def)
qed

lemma format_6f_rendered: "x \<noteq> NaN \<Longrightarrow> rendered (format_6f x)"
proof (cases x)
  case (Finite s m e)
  then show ?thesis by (simp add: rendered_def format_6f_finite)
next
  case (Infinite s)
  then show ?thesis by (simp add: rendered_def format_6f_def)
next
  case NaN
  assume "x \<noteq> NaN"
  with NaN show ?thesis by simp
qed

lemma not_is_dec6_Nil: "\<not> is_dec6 []"
  by (simp add: is_dec6_def)

lemma rendered_nonempty: "rendered s \<Longrightarrow> s \<noteq> []"
  using not_is_dec6_Nil by (auto simp: rendered_def)

lemma length_cells:
  "length (lat_cells ll) = length (fst ll)" "length (lon_cells ll) = length (snd ll)"
  "length (lat_lon_cells ll) = min (length (fst ll)) (length (snd ll))"
  by (simp_all add: lat_cells_def lon_cells_def lat_lon_cells_def)

lemma nth_cells:
  assumes "i < length (fst ll)" and "i < length (snd ll)"
  shows "lat_cells ll ! i = Some (fmt_one (fst ll ! i))"
    and "lon_cells ll ! i = Some (fmt_one (snd ll ! i))"
    and "lat_lon_cells ll ! i = Some (fmt_pair (fst ll ! i) (snd ll ! i))"
  using assms by (simp_all add: lat_cells_def lon_cells_def lat_lon_cells_def)

lemma row_of_nan:
  "row_empty (Some (fmt_one NaN)) (Some (fmt_one NaN)) (Some (fmt_pair NaN NaN))"
  "\<not> row_filled rendered (Some (fmt_one NaN)) (Some (fmt_one NaN)) (Some (fmt_pair NaN NaN))"
  using rendered_nonempty [of "[]"]
  by (auto simp: row_empty_def row_filled_def fmt_one_def fmt_pair_def isnan_def)

lemma row_of_numbers:
  assumes "\<not> isnan a" and "\<not> isnan b"
  shows "row_filled rendered (Some (fmt_one a)) (Some (fmt_one b)) (Some (fmt_pair a b))"
    and "\<not> row_empty (Some (fmt_one a)) (Some (fmt_one b)) (Some (fmt_pair a b))"
proof -
  from assms have r: "rendered (format_6f a)" "rendered (format_6f b)"
    by (simp_all add: isnan_def format_6f_rendered)
  with assms show "row_filled rendered (Some (fmt_one a)) (Some (fmt_one b)) (Some (fmt_pair a b))"
    by (simp add: row_filled_def fmt_one_def fmt_pair_def)
  from r(1) assms show "\<not> row_empty (Some (fmt_one a)) (Some (fmt_one b)) (Some (fmt_pair a b))"
    by (auto simp: row_empty_def fmt_one_def dest: rendered_nonempty)
qed

lemma assign_coords_total:
  assumes "get_col df species_col = Inr species"
    and "assign_floats int1 intN master (map (normalize_species cf) species) rng = Inr (ll, rng')"
  shows "\<exists>out. assign_coords cf int1 intN df species_col master rng = Inr (out, rng')"
  using assms by (simp add: assign_coords_def Let_def)

lemma rng_ok_counter: "rng_ok counter_int1 counter_intN"
  by (simp add: rng_ok_def counter_int1_def counter_intN_def list_all_iff)

lemma get_col_demo:
  "get_col df_demo ''Species'' = Inr [Some ''Heron'', Some ''Dodo'', None, Some ''dodo (extinct)'']"
  by (simp add: df_demo_def get_col_def)

lemma load_master_inf:
  "load_master ascii_casefold parse_small dfm_inf =
     Inr [''heron'' \<mapsto> [(Infinite False, Finite False 20 0)]]"
  by (simp add: dfm_inf_def find_col_eval norm_eval load_master_eval)

lemma find_col_heron: "find_col ascii_casefold df_heron species_candidates = Inr ''species''"
  by (simp add: df_heron_def find_col_eval norm_eval)

lemma assign_floats_inf:
  "assign_floats counter_int1 counter_intN [''heron'' \<mapsto> [(Infinite False, Finite False 20 0)]]
     [''heron''] (0::nat)
   = Inr (([Infinite False], [Finite False 20 0]), 1)"
  by (simp add: groupby_groups_def rows_of_def assign_eval)

lemma assign_coords_inf:
  "assign_coords ascii_casefold counter_int1 counter_intN df_heron ''species''
     [''heron'' \<mapsto> [(Infinite False, Finite False 20 0)]] (0::nat)
   = Inr ([(''species'', [Some ''Heron'']), (''lat'', [Some ''inf'']),
           (''lopnong'', [Some ''20.000000'']), (''lat_lon'', [Some ''inf,20.000000''])], 1)"
  by (simp add: df_heron_def assign_coords_def get_col_def norm_eval assign_floats_inf
      set_col_def drop_col_def fmt_pair_def fmt_one_def isnan_def format_eval)

lemma main_inf:
  "main ascii_casefold parse_small counter_int1 counter_intN df_heron dfm_inf (0::nat) =
     Inr \<lparr> enriched =
             [(''species'', [Some ''Heron'']), (''lat'', [Some ''inf'']),
              (''lopnong'', [Some ''20.000000'']), (''lat_lon'', [Some ''inf,20.000000''])],
           no_match_file = None, total = 1, asignadas = 1, sin_match = 0 \<rparr>"
  unfolding main_def find_col_heron load_master_inf
  by (simp add: assign_coords_inf)
     (simp add: df_heron_def get_col_def norm_eval no_match_of_def)

subsection \<open>The frame around the derived columns\<close>

lemma dict_set_present:
  "k \<notin> fst ` set pre \<Longrightarrow> dict_set (pre @ (k, v0) # post) k v = pre @ (k, v) # post"
  by (induction pre) auto

lemma set_col_present:
  "k \<notin> set (columns pre) \<Longrightarrow> set_col (pre @ (k, v0) # post) k v = pre @ (k, v) # post"
  by (simp add: set_col_def columns_def dict_set_present)

lemma assign_floats_clash:
  "assign_floats counter_int1 counter_intN Map.empty [''dodo''] (0::nat) = Inr (([NaN], [NaN]), 0)"
  by (simp add: groupby_groups_def rows_of_def assign_eval)

lemma assign_coords_clash:
  "assign_coords ascii_casefold counter_int1 counter_intN df_clash ''species'' Map.empty (0::nat)
   = Inr ([(''species'', [Some ''dodo'']), (''lat'', [Some []]),
           (''lopnong'', [Some []]), (''lat_lon'', [Some []])], 0)"
  by (simp add: df_clash_def assign_coords_def get_col_def norm_eval assign_floats_clash
      set_col_def drop_col_def fmt_pair_def fmt_one_def isnan_def)

lemma columns_after_stores:
  assumes "s \<noteq> l" "s \<noteq> o'" "s \<noteq> p" "l \<noteq> o'" "l \<noteq> p" "o' \<noteq> p"
  shows "columns (drop_col
                   (set_col (set_col (set_col (set_col (set_col (set_col df s a) l b) o' c) p d) l e) o' f)
                   s) =
           filter (\<lambda>c. c \<noteq> s) (columns df) @ filter (\<lambda>c. c \<notin> set (columns df)) [l, o', p]"
  using assms by (simp add: columns_drop_col columns_set_col)

lemma assign_coords_column_names:
  assumes "assign_coords cf int1 intN df species_col master rng = Inr (out, rng')"
  shows "columns out =
           filter (\<lambda>c. c \<noteq> ''_species_norm'') (columns df)
           @ filter (\<lambda>c. c \<notin> set (columns df)) [''lat'', ''lopnong'', ''lat_lon'']"
proof -
  from assign_coords_Inr [OF assms] obtain species ll where
    out: "out = drop_col
                   (set_col
                     (set_col
                       (set_col
                         (set_col
                           (set_col
                             (set_col df ''_species_norm''
                                (map Some (map (normalize_species cf) species)))
                             ''lat'' (replicate (length species) None))
                           ''lopnong'' (replicate (length species) None))
                         ''lat_lon'' (lat_lon_cells ll))
                       ''lat'' (lat_cells ll))
                     ''lopnong'' (lon_cells ll))
                   ''_species_norm''"
    by blast
  show ?thesis
    unfolding out by (rule columns_after_stores) simp_all
qed

lemma draw_counter:
  "draw_choices counter_int1 counter_intN g k n = map (\<lambda>j. (g + j) mod k) [0..<n]"
  "draw_state counter_int1 counter_intN g k n = g + n"
  by (simp_all add: draw_choices_def draw_state_def counter_int1_def counter_intN_def)

lemma length_filter_upt_nth:
  "j < length (filter P [0..<n]) \<Longrightarrow> length (filter P [0..<filter P [0..<n] ! j]) = j"
proof (induction n)
  case 0
  then show ?case by simp
next
  case (Suc n)
  show ?case
  proof (cases "j < length (filter P [0..<n])")
    case True
    with Suc.IH show ?thesis by (simp add: nth_append)
  next
    case False
    with Suc.prems have "P n" "j = length (filter P [0..<n])"
      by (auto split: if_splits)
    then show ?thesis by (simp add: nth_append)
  qed
qed

lemma rank_rows_of:
  assumes "j < length (rows_of norms k)"
  shows "length (filter (\<lambda>j'. norms ! j' = k) [0..<rows_of norms k ! j]) = j"
  using length_filter_upt_nth [of j "\<lambda>j'. norms ! j' = k" "length norms"] assms
  by (simp add: rows_of_def)

lemma group_entries_counter:
  assumes "(r, cs, c) \<in> set (group_entries ck rows (map (\<lambda>j. (g + j) mod length ck) [0..<length rows]))"
  shows "\<exists>j < length rows. r = rows ! j \<and> cs = ck \<and> c = (g + j) mod length ck"
proof -
  from assms have "(r, c) \<in> set (zip rows (map (\<lambda>j. (g + j) mod length ck) [0..<length rows]))"
    and "cs = ck"
    by (auto simp: group_entries_def)
  then show ?thesis
    by (auto simp: set_zip)
qed

lemma matched_Some: "master k = Some cs \<Longrightarrow> cs \<noteq> [] \<Longrightarrow> matched master k"
  by (simp add: matched_def)

lemma not_matched: "master k = None \<or> master k = Some [] \<Longrightarrow> \<not> matched master k"
  by (auto simp: matched_def)

lemma schedule_counter_entry:
  assumes "distinct ks"
    and "(r, cs, c) \<in> set (fst (schedule counter_int1 counter_intN master norms ks g))"
  shows "c = (g + drawn master norms (takeWhile (\<lambda>k. k \<noteq> norms ! r) ks)
               + length (filter (\<lambda>j. norms ! j = norms ! r) [0..<r])) mod length cs"
  using assms
proof (induction ks arbitrary: g)
  case Nil
  then show ?case by simp
next
  case (Cons k ks)
  from Cons.prems have d: "distinct ks" "k \<notin> set ks" by simp_all
  show ?case
  proof (cases "master k = None \<or> master k = Some []")
    case True
    with Cons.prems have e: "(r, cs, c) \<in> set (fst (schedule counter_int1 counter_intN master norms ks g))"
      by auto
    from schedule_entry [OF e] d have "norms ! r \<noteq> k" by auto
    with Cons.IH [OF d(1) e] not_matched [of master k, OF True] show ?thesis by simp
  next
    case False
    then obtain ck where ck: "master k = Some ck" "ck \<noteq> []" by auto
    let ?n = "length (rows_of norms k)"
    from Cons.prems ck consider
        "(r, cs, c) \<in> set (group_entries ck (rows_of norms k) (map (\<lambda>j. (g + j) mod length ck) [0..<?n]))"
      | "(r, cs, c) \<in> set (fst (schedule counter_int1 counter_intN master norms ks (g + ?n)))"
      by (auto simp: draw_counter)
    then show ?thesis
    proof cases
      case 1
      from group_entries_counter [OF 1] obtain j where
        j: "j < ?n" "r = rows_of norms k ! j" "cs = ck" "c = (g + j) mod length ck"
        by blast
      from j(1,2) have "r \<in> set (rows_of norms k)" by simp
      then have k: "norms ! r = k" by (simp add: set_rows_of)
      from rank_rows_of [OF j(1)] j(2) k
      have "length (filter (\<lambda>j'. norms ! j' = norms ! r) [0..<r]) = j" by simp
      with j k show ?thesis by simp
    next
      case 2
      from schedule_entry [OF 2] d have "norms ! r \<noteq> k" by auto
      with Cons.IH [OF d(1) 2] matched_Some [of master k ck, OF ck] show ?thesis
        by (simp add: add.assoc)
    qed
  qed
qed

lemma schedule_counter_state:
  "snd (schedule counter_int1 counter_intN master norms ks g) = g + drawn master norms ks"
proof (induction ks arbitrary: g)
  case Nil
  then show ?case by simp
next
  case (Cons k ks)
  show ?case
  proof (cases "master k = None \<or> master k = Some []")
    case True
    with Cons.IH not_matched [of master k, OF True] show ?thesis by auto
  next
    case False
    then obtain ck where ck: "master k = Some ck" "ck \<noteq> []" by auto
    with Cons.IH matched_Some [of master k ck, OF ck] show ?thesis
      by (simp add: draw_counter)
  qed
qed

lemma length_filter_disj:
  assumes "\<And>x. x \<in> set xs \<Longrightarrow> \<not> (A x \<and> B x)"
  shows "length (filter (\<lambda>x. A x \<or> B x) xs) = length (filter A xs) + length (filter B xs)"
  using assms by (induction xs) auto

lemma drawn_count:
  assumes "distinct ks"
  shows "drawn master norms ks =
     length (filter (\<lambda>j. matched master (norms ! j) \<and> norms ! j \<in> set ks) [0..<length norms])"
  using assms
proof (induction ks)
  case Nil
  then show ?case by simp
next
  case (Cons k ks)
  let ?A = "\<lambda>j. matched master (norms ! j) \<and> norms ! j = k"
  let ?B = "\<lambda>j. matched master (norms ! j) \<and> norms ! j \<in> set ks"
  have "filter (\<lambda>j. matched master (norms ! j) \<and> norms ! j \<in> set (k # ks)) [0..<length norms]
      = filter (\<lambda>j. ?A j \<or> ?B j) [0..<length norms]"
    by (rule filter_cong) auto
  moreover have "length (filter (\<lambda>j. ?A j \<or> ?B j) [0..<length norms])
      = length (filter ?A [0..<length norms]) + length (filter ?B [0..<length norms])"
    using Cons.prems by (intro length_filter_disj) auto
  moreover have "length (filter ?A [0..<length norms])
      = (if matched master k then length (rows_of norms k) else 0)"
  proof (cases "matched master k")
    case True
    then have "filter ?A [0..<length norms] = rows_of norms k"
      unfolding rows_of_def by (intro filter_cong) auto
    with True show ?thesis by simp
  next
    case False
    then have "filter ?A [0..<length norms] = []"
      by (auto simp: filter_empty_conv)
    with False show ?thesis by simp
  qed
  ultimately show ?case
    using Cons by simp
qed

lemma takeWhile_sorted:
  assumes "sorted ks" and "distinct ks" and "k \<in> set ks"
  shows "takeWhile (\<lambda>k'. k' \<noteq> k) ks = filter (\<lambda>k'. k' < k) (ks :: string list)"
  using assms
proof (induction ks)
  case Nil
  then show ?case by simp
next
  case (Cons k' ks)
  show ?case
  proof (cases "k' = k")
    case True
    with Cons.prems have "\<forall>x \<in> set ks. k < x"
      by (auto simp: less_le)
    then have "filter (\<lambda>k'. k' < k) ks = []"
      by (auto simp: filter_empty_conv)
    with True show ?thesis by simp
  next
    case False
    with Cons.prems have "k \<in> set ks" "k' < k" by (auto simp: less_le)
    with Cons False show ?thesis by simp
  qed
qed

lemma drawn_before:
  assumes "i < length norms"
  shows "drawn master norms (takeWhile (\<lambda>k. k \<noteq> norms ! i) (sort (remdups norms)))
     = length (filter (\<lambda>j. matched master (norms ! j) \<and> norms ! j < norms ! i) [0..<length norms])"
proof -
  let ?ks = "sort (remdups norms)"
  from assms have "norms ! i \<in> set ?ks" by simp
  then have t: "takeWhile (\<lambda>k. k \<noteq> norms ! i) ?ks = filter (\<lambda>k. k < norms ! i) ?ks"
    by (intro takeWhile_sorted) simp_all
  have "distinct (filter (\<lambda>k. k < norms ! i) ?ks)" by simp
  from drawn_count [OF this, of master norms]
  have "drawn master norms (filter (\<lambda>k. k < norms ! i) ?ks)
      = length (filter (\<lambda>j. matched master (norms ! j)
                  \<and> norms ! j \<in> set (filter (\<lambda>k. k < norms ! i) ?ks)) [0..<length norms])" .
  also have "filter (\<lambda>j. matched master (norms ! j)
                  \<and> norms ! j \<in> set (filter (\<lambda>k. k < norms ! i) ?ks)) [0..<length norms]
      = filter (\<lambda>j. matched master (norms ! j) \<and> norms ! j < norms ! i) [0..<length norms]"
    by (rule filter_cong) auto
  finally show ?thesis by (simp only: t)
qed

lemma drawn_all:
  "drawn master norms (sort (remdups norms))
     = length (filter (\<lambda>j. matched master (norms ! j)) [0..<length norms])"
proof -
  have "distinct (sort (remdups norms))" by simp
  from drawn_count [OF this, of master norms]
  have "drawn master norms (sort (remdups norms))
      = length (filter (\<lambda>j. matched master (norms ! j) \<and> norms ! j \<in> set (sort (remdups norms)))
          [0..<length norms])" .
  also have "filter (\<lambda>j. matched master (norms ! j) \<and> norms ! j \<in> set (sort (remdups norms)))
          [0..<length norms]
      = filter (\<lambda>j. matched master (norms ! j)) [0..<length norms]"
    by (rule filter_cong) auto
  finally show ?thesis .
qed

lemma assign_floats_counter:
  "\<exists>ll. assign_floats counter_int1 counter_intN master norms g
           = Inr (ll, g + length (filter (\<lambda>j. matched master (norms ! j)) [0..<length norms]))
       \<and> (\<forall>i < length norms. \<forall>cs. master (norms ! i) = Some cs \<longrightarrow> cs \<noteq> [] \<longrightarrow>
              fst ll ! i = fst (cs ! ((g + draw_position master norms i) mod length cs))
            \<and> snd ll ! i = snd (cs ! ((g + draw_position master norms i) mod length cs)))"
proof -
  let ?ks = "sort (remdups norms)"
  let ?es = "fst (schedule counter_int1 counter_intN master norms ?ks g)"
  let ?nan = "(replicate (length norms) NaN, replicate (length norms) NaN)"
  let ?ll = "store ?es ?nan"
  have r: "in_range ?es"
    by (rule schedule_ok(1) [OF rng_ok_counter])
  then have a: "assign_floats counter_int1 counter_intN master norms g
      = Inr (?ll, g + length (filter (\<lambda>j. matched master (norms ! j)) [0..<length norms]))"
    by (simp add: assign_floats_schedule schedule_counter_state drawn_all)
  have d: "distinct (map fst ?es)"
    by (rule schedule_rows_distinct) simp
  have "fst ?ll ! i = fst (cs ! ((g + draw_position master norms i) mod length cs))
      \<and> snd ?ll ! i = snd (cs ! ((g + draw_position master norms i) mod length cs))"
    if i: "i < length norms" and cs: "master (norms ! i) = Some cs" "cs \<noteq> []" for i cs
  proof -
    from i have "norms ! i \<in> set ?ks" by simp
    from schedule_ok(2) [where r = i and norms = norms and master = master and cs = cs
          and ks = ?ks and g = g, OF rng_ok_counter i this cs]
    obtain c where e: "(i, cs, c) \<in> set ?es" by blast
    have "distinct ?ks" by simp
    from schedule_counter_entry [OF this e] drawn_before [OF i, of master]
    have c: "c = (g + draw_position master norms i) mod length cs"
      by (simp add: draw_position_def add.assoc)
    from store_touched [OF d e, of ?nan] i c show ?thesis by simp
  qed
  with a show ?thesis by blast
qed

lemma df_perm_b_rows:
  "df_perm_b =
     [(''id'', [Some ''r3'', Some ''r1'', Some ''r2'', Some ''r0'']),
      (''species'', [Some ''Dodo'', Some ''Heron'', Some ''Dodo'', Some ''Heron''])]"
  by (simp add: df_perm_b_def df_perm_a_def permute_rows_def)

lemma assign_floats_two_a:
  "assign_floats counter_int1 counter_intN master_two [''heron'', ''heron'', ''dodo'', ''dodo''] (0::nat)
   = Inr (([Finite False 1 0, Finite False 2 0, Finite False 3 0, Finite False 4 0],
           [Finite False 1 0, Finite False 2 0, Finite False 3 0, Finite False 4 0]), 4)"
  by (simp add: master_two_def groupby_groups_def rows_of_def assign_eval mod_Suc)

lemma assign_floats_two_b:
  "assign_floats counter_int1 counter_intN master_two [''dodo'', ''heron'', ''dodo'', ''heron''] (0::nat)
   = Inr (([Finite False 3 0, Finite False 1 0, Finite False 4 0, Finite False 2 0],
           [Finite False 3 0, Finite False 1 0, Finite False 4 0, Finite False 2 0]), 4)"
  by (simp add: master_two_def groupby_groups_def rows_of_def assign_eval mod_Suc)

lemma assign_coords_perm_a:
  "assign_coords ascii_casefold counter_int1 counter_intN df_perm_a ''species'' master_two (0::nat)
   = Inr (out_perm_a, 4)"
  by (simp add: df_perm_a_def out_perm_a_def assign_coords_def get_col_def norm_eval
      assign_floats_two_a set_col_def drop_col_def fmt_pair_def fmt_one_def isnan_def format_eval)

lemma assign_coords_perm_b:
  "assign_coords ascii_casefold counter_int1 counter_intN df_perm_b ''species'' master_two (0::nat)
   = Inr (out_perm_b, 4)"
  by (simp add: df_perm_b_rows out_perm_b_def assign_coords_def get_col_def norm_eval
      assign_floats_two_b set_col_def drop_col_def fmt_pair_def fmt_one_def isnan_def format_eval)

lemma out_perm_differ:
  "get_col out_perm_a ''id'' = Inr [Some ''r0'', Some ''r1'', Some ''r2'', Some ''r3'']"
  "get_col out_perm_a ''lat'' = Inr [Some ''1.000000'', Some ''2.000000'', Some ''3.000000'', Some ''4.000000'']"
  "get_col out_perm_b ''id'' = Inr [Some ''r3'', Some ''r1'', Some ''r2'', Some ''r0'']"
  "get_col out_perm_b ''lat'' = Inr [Some ''3.000000'', Some ''1.000000'', Some ''4.000000'', Some ''2.000000'']"
  "out_perm_b \<noteq> permute_rows [3, 1, 2, 0] out_perm_a"
  by (simp_all add: out_perm_a_def out_perm_b_def get_col_def permute_rows_def)

lemma df_perm_species:
  "get_col df_perm_a ''species'' = Inr [Some ''Heron'', Some ''Heron'', Some ''Dodo'', Some ''Dodo'']"
  "get_col df_perm_b ''species'' = Inr [Some ''Dodo'', Some ''Heron'', Some ''Dodo'', Some ''Heron'']"
  by (simp_all add: df_perm_b_rows df_perm_a_def get_col_def)

lemma draw_position_two:
  "draw_position master_two [''heron'', ''heron'', ''dodo'', ''dodo''] 0 = 2"
  "draw_position master_two [''heron'', ''heron'', ''dodo'', ''dodo''] 1 = 3"
  "draw_position master_two [''heron'', ''heron'', ''dodo'', ''dodo''] 2 = 0"
  "draw_position master_two [''heron'', ''heron'', ''dodo'', ''dodo''] 3 = 1"
  by (simp_all add: draw_position_def matched_def master_two_def upt_rec)

lemma draw_position_two_Suc:
  "draw_position master_two [''heron'', ''heron'', ''dodo'', ''dodo''] (Suc 0) = 3"
  using draw_position_two(2) by simp

lemma find_col_three: "find_col ascii_casefold df_three species_candidates = Inr ''Especie''"
  by (simp add: df_three_def find_col_eval norm_eval)

lemma assign_floats_three:
  "assign_floats counter_int1 counter_intN [''heron'' \<mapsto> [(Finite False 10 0, Finite False 20 0)]]
     [''heron'', ''heron'', ''heron''] (0::nat)
   = Inr (([Finite False 10 0, Finite False 10 0, Finite False 10 0],
           [Finite False 20 0, Finite False 20 0, Finite False 20 0]), 3)"
  by (simp add: groupby_groups_def rows_of_def assign_eval)

lemma assign_coords_three:
  "assign_coords ascii_casefold counter_int1 counter_intN df_three ''Especie''
     [''heron'' \<mapsto> [(Finite False 10 0, Finite False 20 0)]] (0::nat)
   = Inr ([(''Especie'', [Some ''Heron'', Some ''Heron'', Some ''Heron'']),
           (''lat'', [Some ''10.000000'', Some ''10.000000'', Some ''10.000000'']),
           (''lopnong'', [Some ''20.000000'', Some ''20.000000'', Some ''20.000000'']),
           (''lat_lon'', [Some ''10.000000,20.000000'', Some ''10.000000,20.000000'',
                          Some ''10.000000,20.000000''])], 3)"
  by (simp add: df_three_def assign_coords_def get_col_def norm_eval assign_floats_three
      set_col_def drop_col_def fmt_pair_def fmt_one_def isnan_def format_eval)

section \<open>The claims\<close>

text \<open>
  Claim C6.  Idempotence fails for a name with a line feed between parentheses: the
  pattern for a parenthesized span cannot cross the line feed, so the span stays; the
  whitespace collapse then turns the line feed into a space, and a second normalization
  removes the span that the first one left.
\<close>

theorem normalize_species_line_feed:
  "normalize_species ascii_casefold (Some [CHR ''('', CHR 0x0A, CHR '')'']) = ''( )''
   \<and> normalize_species ascii_casefold (Some ''( )'') = []"
  by (simp add: norm_eval)

text \<open>
  Claim C2.  A master row whose name is missing and whose coordinates are numbers is kept:
  its normalized name is the empty \<open>str\<close>, which \<open>dropna\<close> does not count as missing, so
  the empty string becomes a key of the index.
\<close>

theorem load_master_empty_name_is_key:
  "\<exists>m. load_master ascii_casefold parse_small
          [(''nombre'', [None]), (''lat'', [Some ''1'']), (''lon'', [Some ''2''])] = Inr m
      \<and> m [] = Some [(Finite False 1 0, Finite False 2 0)]"
  by (simp add: find_col_eval norm_eval load_master_eval)

text \<open>
  Claim C7, as the code has it.  \<open>find_col\<close> raises exactly when no header of the table,
  with every run of whitespace collapsed to one space, the whitespace at both ends trimmed
  and the result case-folded, is one of the candidates case-folded (a candidate is folded
  only, its whitespace is taken as written).  The error it raises carries the candidates
  that were tried and the headers the table has, and nothing else: the resolver is given no
  name of the logical column.  When it returns, the header returned is given back as the
  table has it, it matches a candidate, and no header before it in the table does.  The
  last four lines are runs: a header found through tabs, doubled spaces, a line feed, a
  no-break space and capitals, ahead of a later header that matches too; a header that
  differs by more than whitespace and case; a candidate whose own whitespace is not
  collapsed; and what collapsing and trimming make of the first header.
\<close>

theorem find_col_resolves:
  "(case find_col cf df candidates of
      Inr col \<Rightarrow>
        (\<exists>pre post. columns df = pre @ col # post
           \<and> cf (strip (collapse_ws col)) \<in> set (map cf candidates)
           \<and> \<not> list_ex (\<lambda>c. cf (strip (collapse_ws c)) \<in> set (map cf candidates)) pre)
    | Inl e \<Rightarrow>
        e = KeyError_find_col candidates (columns df)
        \<and> \<not> list_ex (\<lambda>c. cf (strip (collapse_ws c)) \<in> set (map cf candidates)) (columns df))
   \<and> (isl (find_col cf df candidates)
        \<longleftrightarrow> \<not> (\<exists>c \<in> set (columns df). cf (strip (collapse_ws c)) \<in> set (map cf candidates)))
   \<and> find_col ascii_casefold [(''id'', []), (header_spaced, []), (''nombre'', [])] species_candidates
        = Inr header_spaced
   \<and> find_col ascii_casefold [(''id'', []), (''Nombre_de_ave'', [])] species_candidates
        = Inl (KeyError_find_col species_candidates [''id'', ''Nombre_de_ave''])
   \<and> find_col ascii_casefold [(''nombre de ave'', [])] [''Nombre  de ave'']
        = Inl (KeyError_find_col [''Nombre  de ave''] [''nombre de ave''])
   \<and> strip (collapse_ws header_spaced) = ''Nombre de AVE''"
proof -
  note c = find_col_cases [where cf = cf and df = df and candidates = candidates, unfolded header_norm_def]
  show ?thesis
    by (intro conjI c [THEN conjunct1] c [THEN conjunct2] find_col_spaced find_col_underscore
        find_col_candidate_as_written strip_collapse_spaced)
qed

text \<open>
  Claim C7 as stated fails where it says that the message names the logical column that
  is missing.  The message is made of the candidates and the headers alone: for the
  latitude of the master table it lists \<open>latitud\<close> and \<open>lat\<close> and the headers, and for a
  call with no candidate it names nothing that was looked for.
\<close>

theorem find_col_error_names_no_column:
  "find_col ascii_casefold [(''a'', [])] [] = Inl (KeyError_find_col [] [''a''])
 \<and> sought_names (KeyError_find_col [] [''a'']) = []
 \<and> find_col ascii_casefold [(''a'', [])] lat_candidates
      = Inl (KeyError_find_col [''latitud'', ''lat''] [''a''])"
  by (simp add: find_col_eval norm_eval sought_names_def)

text \<open>
  Claim C5.  When \<open>load_master\<close> returns an index, every key of it maps to a list that is
  not empty and in which both components of every pair are numbers (not NaN).  The index is
  given by the rows that survive the cleaning: a name is a key exactly when at least one
  surviving row carries it, and then it maps to the pairs of those rows in table order; a
  name all of whose rows were dropped is not a key.
\<close>

theorem load_master_index_nonempty:
  assumes "load_master cf parse dfm = Inr m"
  shows "(\<forall>k cs. m k = Some cs \<longrightarrow>
            cs \<noteq> [] \<and> list_all (\<lambda>(lat, lon). \<not> isnan lat \<and> \<not> isnan lon) cs)
       \<and> (\<exists>col_nombre col_lat col_lon nombre lat_raw lon_raw.
            find_col cf dfm nombre_candidates = Inr col_nombre
          \<and> find_col cf dfm lat_candidates = Inr col_lat
          \<and> find_col cf dfm lon_candidates = Inr col_lon
          \<and> get_col dfm col_nombre = Inr nombre
          \<and> get_col dfm col_lat = Inr lat_raw
          \<and> get_col dfm col_lon = Inr lon_raw
          \<and> (\<forall>k. m k =
                (if filter (\<lambda>r. fst r = k) (clean_rows cf parse nombre lat_raw lon_raw) = [] then None
                 else Some (map snd (filter (\<lambda>r. fst r = k)
                                (clean_rows cf parse nombre lat_raw lon_raw))))))"
proof -
  from load_master_Inr [OF assms] obtain col_nombre col_lat col_lon nombre lat_raw lon_raw where
    c: "find_col cf dfm nombre_candidates = Inr col_nombre"
       "find_col cf dfm lat_candidates = Inr col_lat"
       "find_col cf dfm lon_candidates = Inr col_lon"
       "get_col dfm col_nombre = Inr nombre"
       "get_col dfm col_lat = Inr lat_raw"
       "get_col dfm col_lon = Inr lon_raw"
    and m: "m = build_master (clean_rows cf parse nombre lat_raw lon_raw)"
    by (elim exE conjE)
  have l: "\<forall>k. m k =
            (if filter (\<lambda>r. fst r = k) (clean_rows cf parse nombre lat_raw lon_raw) = [] then None
             else Some (map snd (filter (\<lambda>r. fst r = k)
                            (clean_rows cf parse nombre lat_raw lon_raw))))"
    unfolding m by (simp add: build_master_lookup)
  have v: "\<forall>k cs. m k = Some cs \<longrightarrow>
            cs \<noteq> [] \<and> list_all (\<lambda>(lat, lon). \<not> isnan lat \<and> \<not> isnan lon) cs"
    using load_master_valid [OF assms] by blast
  from c l have "\<exists>col_nombre col_lat col_lon nombre lat_raw lon_raw.
            find_col cf dfm nombre_candidates = Inr col_nombre
          \<and> find_col cf dfm lat_candidates = Inr col_lat
          \<and> find_col cf dfm lon_candidates = Inr col_lon
          \<and> get_col dfm col_nombre = Inr nombre
          \<and> get_col dfm col_lat = Inr lat_raw
          \<and> get_col dfm col_lon = Inr lon_raw
          \<and> (\<forall>k. m k =
                (if filter (\<lambda>r. fst r = k) (clean_rows cf parse nombre lat_raw lon_raw) = [] then None
                 else Some (map snd (filter (\<lambda>r. fst r = k)
                                (clean_rows cf parse nombre lat_raw lon_raw)))))"
    by (intro exI conjI)
  with v show ?thesis by (rule conjI)
qed

theorem load_master_index_witness:
  "\<exists>m. load_master ascii_casefold parse_small dfm_mixed = Inr m
      \<and> m ''dodo'' = None
      \<and> (\<exists>cs. m ''heron'' = Some cs \<and> cs \<noteq> []
              \<and> list_all (\<lambda>(lat, lon). \<not> isnan lat \<and> \<not> isnan lon) cs)"
proof -
  let ?m = "[''heron'' \<mapsto> [(Finite False 10 0, Finite False 20 0), (Finite False 11 0, Finite False 21 0)]]"
  have h: "load_master ascii_casefold parse_small dfm_mixed = Inr ?m"
    by (rule load_master_mixed)
  from load_master_index_nonempty [OF h]
  have "\<forall>k cs. ?m k = Some cs \<longrightarrow>
          cs \<noteq> [] \<and> list_all (\<lambda>(lat, lon). \<not> isnan lat \<and> \<not> isnan lon) cs"
    by (rule conjunct1)
  then have "\<exists>cs. ?m ''heron'' = Some cs \<and> cs \<noteq> []
      \<and> list_all (\<lambda>(lat, lon). \<not> isnan lat \<and> \<not> isnan lon) cs"
    by (simp add: isnan_def)
  with h show ?thesis by simp
qed

text \<open>
  Claim C1, as the code has it.  When a run completes, the no-match report lists exactly
  the distinct normalized names of the observation table that are not the empty string and
  not a key of the master index, in strictly ascending order (so without duplicates); the
  file is written exactly when the list is not empty, and the count printed is its length.
  A row whose name is missing or normalizes to the empty string is never reported.
\<close>

theorem no_match_report_nonempty_names:
  assumes "main cf parse int1 intN df dfm rng = Inr out"
  shows "\<exists>species_col species master.
           find_col cf df species_candidates = Inr species_col
         \<and> get_col df species_col = Inr species
         \<and> load_master cf parse dfm = Inr master
         \<and> set (report_of out) = set (map (normalize_species cf) species) - {[]} - dom master
         \<and> sorted_wrt (<) (report_of out)
         \<and> (no_match_file out = None \<longleftrightarrow> report_of out = [])
         \<and> sin_match out = length (report_of out)"
proof -
  from main_Inr [OF assms] obtain species_col master result rng' species lat where
    a: "find_col cf df species_candidates = Inr species_col"
       "load_master cf parse dfm = Inr master"
       "get_col df species_col = Inr species"
    and f: "no_match_file out =
              (if no_match_of master (map (normalize_species cf) species) \<noteq> []
               then Some (no_match_of master (map (normalize_species cf) species)) else None)"
    and n: "sin_match out = length (no_match_of master (map (normalize_species cf) species))"
    by (elim exE conjE)
  have r: "report_of out = no_match_of master (map (normalize_species cf) species)"
    by (simp add: report_of_def f)
  have e: "(no_match_file out = None) = (report_of out = [])"
    by (simp add: r f)
  have s: "set (report_of out) = set (map (normalize_species cf) species) - {[]} - dom master"
    unfolding r by (rule set_no_match_of)
  have o: "sorted_wrt (<) (report_of out)"
    unfolding r by (rule strict_sorted_no_match_of)
  have l: "sin_match out = length (report_of out)"
    by (simp add: r n)
  from a s o e l show ?thesis
    by (intro exI conjI)
qed

text \<open>
  Claim C1 as stated fails on a table with a missing name: the empty string is a
  normalized name of the table and no key of the index, and nothing is reported.
\<close>

theorem no_match_omits_empty_name:
  "\<exists>out master.
      main ascii_casefold parse_small counter_int1 counter_intN
        [(''species'', [None])] dfm_heron (0::nat) = Inr out
    \<and> load_master ascii_casefold parse_small dfm_heron = Inr master
    \<and> no_match_file out = None \<and> sin_match out = 0
    \<and> set (map (normalize_species ascii_casefold) [None]) - dom master = {[]}"
  by (simp add: main_def load_master_heron find_col_eval norm_eval get_col_def
      groupby_groups_def rows_of_def no_match_of_def assign_eval)

theorem no_match_report_witness:
  "\<exists>out. main ascii_casefold parse_small counter_int1 counter_intN df_demo dfm_heron (0::nat) = Inr out
      \<and> report_of out = [''dodo'']
      \<and> (\<exists>species_col species master.
           find_col ascii_casefold df_demo species_candidates = Inr species_col
         \<and> get_col df_demo species_col = Inr species
         \<and> load_master ascii_casefold parse_small dfm_heron = Inr master
         \<and> set (report_of out) = set (map (normalize_species ascii_casefold) species) - {[]} - dom master
         \<and> sorted_wrt (<) (report_of out)
         \<and> (no_match_file out = None \<longleftrightarrow> report_of out = [])
         \<and> sin_match out = length (report_of out))"
proof -
  obtain out where h: "main ascii_casefold parse_small counter_int1 counter_intN df_demo dfm_heron (0::nat) = Inr out"
    and r: "report_of out = [''dodo'']"
    by (simp add: main_demo report_of_def)
  note c = no_match_report_nonempty_names [OF h]
  show ?thesis
    by (rule exI [of _ out]) (intro conjI h r c)
qed

text \<open>
  Claim C4.  With a generator that keeps numpy's contract, \<open>assign_coords\<close> never fails
  on a table that has the species column: no index drawn is out of range.  Every row whose
  normalized name is a key of the master index with a candidate list that is not empty
  receives the rendering of one pair of that list, at an index below the list's length.
\<close>

theorem assigned_pair_from_candidates:
  assumes "rng_ok int1 intN" and "get_col df species_col = Inr species"
  shows "\<exists>out rng' lat lon lat_lon.
      assign_coords cf int1 intN df species_col master rng = Inr (out, rng')
    \<and> get_col out ''lat'' = Inr lat \<and> get_col out ''lopnong'' = Inr lon
    \<and> get_col out ''lat_lon'' = Inr lat_lon
    \<and> length lat = length species \<and> length lon = length species
    \<and> length lat_lon = length species
    \<and> (\<forall>i < length species. \<forall>cs.
          master (normalize_species cf (species ! i)) = Some cs \<longrightarrow> cs \<noteq> [] \<longrightarrow>
          (\<exists>c < length cs.
               lat ! i = Some (fmt_one (fst (cs ! c)))
             \<and> lon ! i = Some (fmt_one (snd (cs ! c)))
             \<and> lat_lon ! i = Some (fmt_pair (fst (cs ! c)) (snd (cs ! c)))))"
proof -
  let ?norms = "map (normalize_species cf) species"
  from assign_floats_ok [OF assms(1), of master ?norms rng] obtain ll rng' where
    f: "assign_floats int1 intN master ?norms rng = Inr (ll, rng')"
    and rows: "\<forall>i < length ?norms.
            case master (?norms ! i) of
              None \<Rightarrow> fst ll ! i = NaN \<and> snd ll ! i = NaN
            | Some cs \<Rightarrow>
                if cs = [] then fst ll ! i = NaN \<and> snd ll ! i = NaN
                else \<exists>c < length cs. fst ll ! i = fst (cs ! c) \<and> snd ll ! i = snd (cs ! c)"
    by blast
  from assign_floats_rows(1) [OF f] have len: "length (fst ll) = length species" "length (snd ll) = length species"
    by simp_all
  from assign_coords_total [OF assms(2) f] obtain out where
    out: "assign_coords cf int1 intN df species_col master rng = Inr (out, rng')" ..
  from assign_coords_columns [OF out] assms(2) f have cols:
    "get_col out ''lat'' = Inr (lat_cells ll)"
    "get_col out ''lopnong'' = Inr (lon_cells ll)"
    "get_col out ''lat_lon'' = Inr (lat_lon_cells ll)"
    by auto
  have "\<exists>c < length cs.
               lat_cells ll ! i = Some (fmt_one (fst (cs ! c)))
             \<and> lon_cells ll ! i = Some (fmt_one (snd (cs ! c)))
             \<and> lat_lon_cells ll ! i = Some (fmt_pair (fst (cs ! c)) (snd (cs ! c)))"
    if i: "i < length species" and m: "master (normalize_species cf (species ! i)) = Some cs"
      and ne: "cs \<noteq> []" for i cs
  proof -
    from rows [rule_format, of i] i m ne
    have "\<exists>c < length cs. fst ll ! i = fst (cs ! c) \<and> snd ll ! i = snd (cs ! c)"
      by simp
    then obtain c where c: "c < length cs"
      "fst ll ! i = fst (cs ! c)" "snd ll ! i = snd (cs ! c)"
      by blast
    from i len have "i < length (fst ll)" "i < length (snd ll)" by simp_all
    from nth_cells [OF this] c show ?thesis by auto
  qed
  then have r: "\<forall>i < length species. \<forall>cs.
          master (normalize_species cf (species ! i)) = Some cs \<longrightarrow> cs \<noteq> [] \<longrightarrow>
          (\<exists>c < length cs.
               lat_cells ll ! i = Some (fmt_one (fst (cs ! c)))
             \<and> lon_cells ll ! i = Some (fmt_one (snd (cs ! c)))
             \<and> lat_lon_cells ll ! i = Some (fmt_pair (fst (cs ! c)) (snd (cs ! c))))"
    by blast
  have l: "length (lat_cells ll) = length species" "length (lon_cells ll) = length species"
    "length (lat_lon_cells ll) = length species"
    by (simp_all add: length_cells len)
  show ?thesis
    by (rule exI [of _ out], rule exI [of _ rng'], rule exI [of _ "lat_cells ll"],
        rule exI [of _ "lon_cells ll"], rule exI [of _ "lat_lon_cells ll"])
       (intro conjI out cols l r)
qed

text \<open>
  Claim C3, as the code has it.  In every row of the enriched table exactly one of two
  things holds: \<open>lat\<close>, \<open>lopnong\<close> and \<open>lat_lon\<close> are all the empty string; or \<open>lat\<close> and
  \<open>lopnong\<close> are each a decimal string with exactly six digits after the point, or the text
  \<open>inf\<close> or \<open>-inf\<close> of an infinite coordinate, and \<open>lat_lon\<close> is the two joined by a comma.
\<close>

theorem derived_fields_shape:
  assumes "main cf parse int1 intN df dfm rng = Inr out"
  shows "\<exists>lat lon lat_lon.
      get_col (enriched out) ''lat'' = Inr lat
    \<and> get_col (enriched out) ''lopnong'' = Inr lon
    \<and> get_col (enriched out) ''lat_lon'' = Inr lat_lon
    \<and> length lat = total out \<and> length lon = total out \<and> length lat_lon = total out
    \<and> (\<forall>i < total out.
          row_empty (lat ! i) (lon ! i) (lat_lon ! i)
          \<noteq> row_filled rendered (lat ! i) (lon ! i) (lat_lon ! i))"
proof -
  from main_Inr [OF assms] obtain species_col master result rng' species where
    lm: "load_master cf parse dfm = Inr master"
    and ac: "assign_coords cf int1 intN df species_col master rng = Inr (result, rng')"
    and sp: "get_col df species_col = Inr species"
    and en: "enriched out = result"
    and tot: "total out = length species"
    by (elim exE conjE)
  let ?norms = "map (normalize_species cf) species"
  from assign_coords_columns [OF ac] sp obtain ll where
    f: "assign_floats int1 intN master ?norms rng = Inr (ll, rng')"
    and cols: "get_col result ''lat'' = Inr (lat_cells ll)"
      "get_col result ''lopnong'' = Inr (lon_cells ll)"
      "get_col result ''lat_lon'' = Inr (lat_lon_cells ll)"
    by auto
  from assign_floats_rows(1) [OF f] have len: "length (fst ll) = length species" "length (snd ll) = length species"
    by simp_all
  have "row_empty (lat_cells ll ! i) (lon_cells ll ! i) (lat_lon_cells ll ! i)
          \<noteq> row_filled rendered (lat_cells ll ! i) (lon_cells ll ! i) (lat_lon_cells ll ! i)"
    if i: "i < length species" for i
  proof -
    from i len have "i < length (fst ll)" "i < length (snd ll)" by simp_all
    note n = nth_cells [OF this]
    from i have "i < length ?norms" by simp
    from assign_floats_rows(2) [OF f this] consider
        "fst ll ! i = NaN" "snd ll ! i = NaN"
      | cs c where "master (?norms ! i) = Some cs" "c < length cs"
          "fst ll ! i = fst (cs ! c)" "snd ll ! i = snd (cs ! c)"
      by blast
    then show ?thesis
    proof cases
      case 1
      with n row_of_nan show ?thesis by simp
    next
      case 2
      from load_master_valid [OF lm 2(1)] 2(2)
      have "\<not> isnan (fst (cs ! c))" "\<not> isnan (snd (cs ! c))"
        by (auto simp: list_all_length case_prod_beta)
      from row_of_numbers [OF this] n 2 show ?thesis by simp
    qed
  qed
  then have r: "\<forall>i < total out.
          row_empty (lat_cells ll ! i) (lon_cells ll ! i) (lat_lon_cells ll ! i)
          \<noteq> row_filled rendered (lat_cells ll ! i) (lon_cells ll ! i) (lat_lon_cells ll ! i)"
    by (simp add: tot)
  have l: "length (lat_cells ll) = total out" "length (lon_cells ll) = total out"
    "length (lat_lon_cells ll) = total out"
    by (simp_all add: length_cells len tot)
  from cols have c: "get_col (enriched out) ''lat'' = Inr (lat_cells ll)"
      "get_col (enriched out) ''lopnong'' = Inr (lon_cells ll)"
      "get_col (enriched out) ''lat_lon'' = Inr (lat_lon_cells ll)"
    by (simp_all add: en)
  show ?thesis
    by (rule exI [of _ "lat_cells ll"], rule exI [of _ "lon_cells ll"],
        rule exI [of _ "lat_lon_cells ll"])
       (intro conjI c l r)
qed

theorem assigned_pair_witness:
  "rng_ok counter_int1 counter_intN
 \<and> get_col df_demo ''Species'' = Inr [Some ''Heron'', Some ''Dodo'', None, Some ''dodo (extinct)'']
 \<and> (\<exists>out rng' lat lon lat_lon.
      assign_coords ascii_casefold counter_int1 counter_intN df_demo ''Species''
        [''heron'' \<mapsto> [(Finite False 10 0, Finite False 20 0)]] (0::nat) = Inr (out, rng')
    \<and> get_col out ''lat'' = Inr lat \<and> get_col out ''lopnong'' = Inr lon
    \<and> get_col out ''lat_lon'' = Inr lat_lon
    \<and> length lat = length [Some ''Heron'', Some ''Dodo'', None, Some ''dodo (extinct)'']
    \<and> length lon = length [Some ''Heron'', Some ''Dodo'', None, Some ''dodo (extinct)'']
    \<and> length lat_lon = length [Some ''Heron'', Some ''Dodo'', None, Some ''dodo (extinct)'']
    \<and> (\<forall>i < length [Some ''Heron'', Some ''Dodo'', None, Some ''dodo (extinct)'']. \<forall>cs.
          [''heron'' \<mapsto> [(Finite False 10 0, Finite False 20 0)]]
            (normalize_species ascii_casefold ([Some ''Heron'', Some ''Dodo'', None, Some ''dodo (extinct)''] ! i)) = Some cs
          \<longrightarrow> cs \<noteq> [] \<longrightarrow>
          (\<exists>c < length cs.
               lat ! i = Some (fmt_one (fst (cs ! c)))
             \<and> lon ! i = Some (fmt_one (snd (cs ! c)))
             \<and> lat_lon ! i = Some (fmt_pair (fst (cs ! c)) (snd (cs ! c))))))"
proof -
  note c = assigned_pair_from_candidates [OF rng_ok_counter get_col_demo,
      where cf = ascii_casefold and rng = "0::nat"
        and master = "[''heron'' \<mapsto> [(Finite False 10 0, Finite False 20 0)]]"]
  show ?thesis
    by (intro conjI rng_ok_counter get_col_demo c)
qed

theorem derived_fields_witness:
  "\<exists>out. main ascii_casefold parse_small counter_int1 counter_intN df_demo dfm_heron (0::nat) = Inr out
    \<and> total out = 4
    \<and> (\<exists>lat lon lat_lon.
          get_col (enriched out) ''lat'' = Inr lat
        \<and> get_col (enriched out) ''lopnong'' = Inr lon
        \<and> get_col (enriched out) ''lat_lon'' = Inr lat_lon
        \<and> length lat = total out \<and> length lon = total out \<and> length lat_lon = total out
        \<and> (\<forall>i < total out.
              row_empty (lat ! i) (lon ! i) (lat_lon ! i)
              \<noteq> row_filled rendered (lat ! i) (lon ! i) (lat_lon ! i)))"
proof -
  obtain out where h: "main ascii_casefold parse_small counter_int1 counter_intN df_demo dfm_heron (0::nat) = Inr out"
    and t: "total out = 4"
    by (simp add: main_demo)
  note c = derived_fields_shape [OF h]
  show ?thesis
    by (rule exI [of _ out]) (intro conjI h t c)
qed

text \<open>
  Claim C3 as stated fails for an infinite coordinate: \<open>pd.to_numeric\<close> reads the text
  \<open>inf\<close> as a float that is not NaN, the row survives the cleaning, and the format
  \<^verbatim>\<open>.6f\<close> renders it as \<open>inf\<close>, which has no decimal point.
\<close>

theorem derived_fields_infinite:
  "\<exists>out. main ascii_casefold parse_small counter_int1 counter_intN df_heron dfm_inf (0::nat) = Inr out
    \<and> get_col (enriched out) ''lat'' = Inr [Some ''inf'']
    \<and> get_col (enriched out) ''lopnong'' = Inr [Some ''20.000000'']
    \<and> get_col (enriched out) ''lat_lon'' = Inr [Some ''inf,20.000000'']
    \<and> \<not> row_empty (Some ''inf'') (Some ''20.000000'') (Some ''inf,20.000000'')
    \<and> \<not> row_filled is_dec6 (Some ''inf'') (Some ''20.000000'') (Some ''inf,20.000000'')"
  by (simp add: main_inf get_col_def row_empty_def row_filled_def is_dec6_def is_digit_def)

text \<open>
  Claim C8, as the code has it.  For a table that has none of the columns
  \<open>_species_norm\<close>, \<open>lat\<close>, \<open>lopnong\<close> and \<open>lat_lon\<close>, the enriched table is the
  table itself, its columns and cells unchanged and in place, followed by the three
  derived columns, each with one cell per row.
\<close>

theorem original_columns_kept:
  assumes "assign_coords cf int1 intN df species_col master rng = Inr (out, rng')"
    and "''_species_norm'' \<notin> set (columns df)" and "''lat'' \<notin> set (columns df)"
    and "''lopnong'' \<notin> set (columns df)" and "''lat_lon'' \<notin> set (columns df)"
  shows "\<exists>species lat lon lat_lon.
           get_col df species_col = Inr species
         \<and> out = df @ [(''lat'', lat), (''lopnong'', lon), (''lat_lon'', lat_lon)]
         \<and> length lat = length species \<and> length lon = length species
         \<and> length lat_lon = length species"
proof -
  from assign_coords_Inr [OF assms(1)] obtain species ll where
    sp: "get_col df species_col = Inr species"
    and f: "assign_floats int1 intN master (map (normalize_species cf) species) rng = Inr (ll, rng')"
    and out: "out = drop_col
                   (set_col
                     (set_col
                       (set_col
                         (set_col
                           (set_col
                             (set_col df ''_species_norm''
                                (map Some (map (normalize_species cf) species)))
                             ''lat'' (replicate (length species) None))
                           ''lopnong'' (replicate (length species) None))
                         ''lat_lon'' (lat_lon_cells ll))
                       ''lat'' (lat_cells ll))
                     ''lopnong'' (lon_cells ll))
                   ''_species_norm''"
    by blast
  let ?sn = "(''_species_norm'', map Some (map (normalize_species cf) species))"
  let ?nan = "replicate (length species) None"
  have 1: "set_col df ''_species_norm'' (map Some (map (normalize_species cf) species)) = df @ [?sn]"
    using assms(2) by (simp add: set_col_new)
  have 2: "set_col (df @ [?sn]) ''lat'' ?nan = df @ [?sn, (''lat'', ?nan)]"
    using assms(3) by (simp add: set_col_new columns_def)
  have 3: "set_col (df @ [?sn, (''lat'', ?nan)]) ''lopnong'' ?nan
      = df @ [?sn, (''lat'', ?nan), (''lopnong'', ?nan)]"
    using assms(4) by (simp add: set_col_new columns_def)
  have 4: "set_col (df @ [?sn, (''lat'', ?nan), (''lopnong'', ?nan)]) ''lat_lon'' (lat_lon_cells ll)
      = df @ [?sn, (''lat'', ?nan), (''lopnong'', ?nan), (''lat_lon'', lat_lon_cells ll)]"
    using assms(5) by (simp add: set_col_new columns_def)
  have 5: "set_col (df @ [?sn, (''lat'', ?nan), (''lopnong'', ?nan), (''lat_lon'', lat_lon_cells ll)])
        ''lat'' (lat_cells ll)
      = df @ [?sn, (''lat'', lat_cells ll), (''lopnong'', ?nan), (''lat_lon'', lat_lon_cells ll)]"
    using assms(3) set_col_present [of "''lat''" "df @ [?sn]" ?nan
        "[(''lopnong'', ?nan), (''lat_lon'', lat_lon_cells ll)]" "lat_cells ll"]
    by (simp add: columns_def)
  have 6: "set_col (df @ [?sn, (''lat'', lat_cells ll), (''lopnong'', ?nan), (''lat_lon'', lat_lon_cells ll)])
        ''lopnong'' (lon_cells ll)
      = df @ [?sn, (''lat'', lat_cells ll), (''lopnong'', lon_cells ll), (''lat_lon'', lat_lon_cells ll)]"
    using assms(4) set_col_present [of "''lopnong''" "df @ [?sn, (''lat'', lat_cells ll)]" ?nan
        "[(''lat_lon'', lat_lon_cells ll)]" "lon_cells ll"]
    by (simp add: columns_def)
  have 7: "drop_col (df @ [?sn, (''lat'', lat_cells ll), (''lopnong'', lon_cells ll), (''lat_lon'', lat_lon_cells ll)])
        ''_species_norm''
      = df @ [(''lat'', lat_cells ll), (''lopnong'', lon_cells ll), (''lat_lon'', lat_lon_cells ll)]"
    using assms(2) by (simp add: drop_col_append drop_col_absent) (simp add: drop_col_def)
  have o: "out = df @ [(''lat'', lat_cells ll), (''lopnong'', lon_cells ll), (''lat_lon'', lat_lon_cells ll)]"
    unfolding out by (simp only: 1 2 3 4 5 6 7)
  from assign_floats_rows(1) [OF f] have l: "length (lat_cells ll) = length species"
    "length (lon_cells ll) = length species" "length (lat_lon_cells ll) = length species"
    by (simp_all add: length_cells)
  show ?thesis
    by (rule exI [of _ species], rule exI [of _ "lat_cells ll"], rule exI [of _ "lon_cells ll"],
        rule exI [of _ "lat_lon_cells ll"])
       (intro conjI sp o l)
qed

theorem original_columns_witness:
  "assign_coords ascii_casefold counter_int1 counter_intN df_demo ''Species''
     [''heron'' \<mapsto> [(Finite False 10 0, Finite False 20 0)]] (0::nat)
   = Inr ([(''id'', [Some ''r0'', Some ''r1'', Some ''r2'', Some ''r3'']),
           (''Species'', [Some ''Heron'', Some ''Dodo'', None, Some ''dodo (extinct)'']),
           (''lat'', [Some ''10.000000'', Some [], Some [], Some []]),
           (''lopnong'', [Some ''20.000000'', Some [], Some [], Some []]),
           (''lat_lon'', [Some ''10.000000,20.000000'', Some [], Some [], Some []])], 1)
 \<and> ''_species_norm'' \<notin> set (columns df_demo) \<and> ''lat'' \<notin> set (columns df_demo)
 \<and> ''lopnong'' \<notin> set (columns df_demo) \<and> ''lat_lon'' \<notin> set (columns df_demo)
 \<and> (\<exists>species lat lon lat_lon.
           get_col df_demo ''Species'' = Inr species
         \<and> [(''id'', [Some ''r0'', Some ''r1'', Some ''r2'', Some ''r3'']),
             (''Species'', [Some ''Heron'', Some ''Dodo'', None, Some ''dodo (extinct)'']),
             (''lat'', [Some ''10.000000'', Some [], Some [], Some []]),
             (''lopnong'', [Some ''20.000000'', Some [], Some [], Some []]),
             (''lat_lon'', [Some ''10.000000,20.000000'', Some [], Some [], Some []])]
            = df_demo @ [(''lat'', lat), (''lopnong'', lon), (''lat_lon'', lat_lon)]
         \<and> length lat = length species \<and> length lon = length species
         \<and> length lat_lon = length species)"
proof -
  have c: "''_species_norm'' \<notin> set (columns df_demo)" "''lat'' \<notin> set (columns df_demo)"
    "''lopnong'' \<notin> set (columns df_demo)" "''lat_lon'' \<notin> set (columns df_demo)"
    by (simp_all add: columns_def df_demo_def)
  note k = original_columns_kept [OF assign_coords_demo c]
  show ?thesis
    by (intro conjI assign_coords_demo c k)
qed

text \<open>
  Claim C8 as stated fails for a table that already has a column \<open>lat\<close> or
  \<open>_species_norm\<close>: the first loses its cells, the second is dropped.
\<close>

theorem original_columns_lost:
  "\<exists>out rng'.
      assign_coords ascii_casefold counter_int1 counter_intN df_clash ''species'' Map.empty (0::nat)
        = Inr (out, rng')
    \<and> get_col out ''lat'' = Inr [Some []]
    \<and> get_col out ''_species_norm'' = Inl (KeyError_column ''_species_norm'')
    \<and> \<not> frame_kept df_clash out"
proof -
  let ?out = "[(''species'', [Some ''dodo'']), (''lat'', [Some []]),
               (''lopnong'', [Some []]), (''lat_lon'', [Some []])]"
  have "get_col ?out ''lat'' = Inr [Some []]"
    and "get_col ?out ''_species_norm'' = Inl (KeyError_column ''_species_norm'')"
    and "\<not> frame_kept df_clash ?out"
    by (simp_all add: get_col_def frame_kept_def df_clash_def)
  with assign_coords_clash show ?thesis
    by (intro exI [of _ ?out] exI [of _ "0::nat"] conjI)
qed

text \<open>
  Claim C10.  Whatever the table holds under \<open>lat\<close>, \<open>lopnong\<close> or \<open>lat_lon\<close>, the
  enriched table holds the derived fields there, rendered from what the loop assigned; a
  column that was there keeps its place, one that was not is appended.  A column
  \<open>_species_norm\<close> of the table is not in the enriched table, and no error is raised
  for it.
\<close>

theorem derived_columns_overwrite:
  assumes "assign_coords cf int1 intN df species_col master rng = Inr (out, rng')"
  shows "\<exists>species ll.
           get_col df species_col = Inr species
         \<and> assign_floats int1 intN master (map (normalize_species cf) species) rng = Inr (ll, rng')
         \<and> get_col out ''lat'' = Inr (lat_cells ll)
         \<and> get_col out ''lopnong'' = Inr (lon_cells ll)
         \<and> get_col out ''lat_lon'' = Inr (lat_lon_cells ll)
         \<and> ''_species_norm'' \<notin> set (columns out)
         \<and> columns out =
             filter (\<lambda>c. c \<noteq> ''_species_norm'') (columns df)
             @ filter (\<lambda>c. c \<notin> set (columns df)) [''lat'', ''lopnong'', ''lat_lon'']"
proof -
  from assign_coords_columns [OF assms] obtain species ll where
    a: "get_col df species_col = Inr species"
       "assign_floats int1 intN master (map (normalize_species cf) species) rng = Inr (ll, rng')"
       "get_col out ''lat'' = Inr (lat_cells ll)"
       "get_col out ''lopnong'' = Inr (lon_cells ll)"
       "get_col out ''lat_lon'' = Inr (lat_lon_cells ll)"
    by blast
  note n = assign_coords_column_names [OF assms]
  have d: "''_species_norm'' \<notin> set (columns out)"
    unfolding n by simp
  show ?thesis
    by (rule exI [of _ species], rule exI [of _ ll]) (intro conjI a d n)
qed

theorem derived_columns_witness:
  "assign_coords ascii_casefold counter_int1 counter_intN df_clash ''species'' Map.empty (0::nat)
   = Inr ([(''species'', [Some ''dodo'']), (''lat'', [Some []]),
           (''lopnong'', [Some []]), (''lat_lon'', [Some []])], 0)
 \<and> (\<exists>species ll.
           get_col df_clash ''species'' = Inr species
         \<and> assign_floats counter_int1 counter_intN Map.empty
              (map (normalize_species ascii_casefold) species) (0::nat) = Inr (ll, 0)
         \<and> get_col [(''species'', [Some ''dodo'']), (''lat'', [Some []]),
                     (''lopnong'', [Some []]), (''lat_lon'', [Some []])] ''lat'' = Inr (lat_cells ll)
         \<and> get_col [(''species'', [Some ''dodo'']), (''lat'', [Some []]),
                     (''lopnong'', [Some []]), (''lat_lon'', [Some []])] ''lopnong'' = Inr (lon_cells ll)
         \<and> get_col [(''species'', [Some ''dodo'']), (''lat'', [Some []]),
                     (''lopnong'', [Some []]), (''lat_lon'', [Some []])] ''lat_lon'' = Inr (lat_lon_cells ll)
         \<and> ''_species_norm'' \<notin> set (columns [(''species'', [Some ''dodo'']), (''lat'', [Some []]),
                     (''lopnong'', [Some []]), (''lat_lon'', [Some []])])
         \<and> columns [(''species'', [Some ''dodo'']), (''lat'', [Some []]),
                     (''lopnong'', [Some []]), (''lat_lon'', [Some []])] =
             filter (\<lambda>c. c \<noteq> ''_species_norm'') (columns df_clash)
             @ filter (\<lambda>c. c \<notin> set (columns df_clash)) [''lat'', ''lopnong'', ''lat_lon''])"
proof -
  note c = derived_columns_overwrite [OF assign_coords_clash]
  show ?thesis
    by (intro conjI assign_coords_clash c)
qed

text \<open>
  Claim C9.  For every generator the loop is the schedule over the distinct normalized
  names in ascending order: a group's draws are made when its name comes up and go to its
  rows in table order.  With the generator that hands out its own draw count, a row of a
  matched species therefore receives the candidate at the index \<open>draw_position\<close>, the
  number of draws made for smaller names plus the number of earlier rows of its own name,
  and the generator ends at the number of matched rows: one draw per matched row.  The order
  of first appearance plays no part: in \<open>df_perm_a\<close> the herons come first and the dodos
  draw first.  Consequently a permutation of the rows across species groups can change what
  a row receives: \<open>df_perm_b\<close> is \<open>df_perm_a\<close> with the heron \<open>r0\<close> and the dodo \<open>r3\<close>
  exchanged; with the same generator and the same master index, \<open>r0\<close> receives the first
  candidate of its species in one table and the second in the other, \<open>r3\<close> the second and
  the first, and so do \<open>r1\<close> and \<open>r2\<close>, which did not move.  The enriched table of the
  permuted table is not the enriched table permuted.
\<close>

theorem draws_in_sorted_species_order:
  "assign_floats int1 intN master norms rng =
     (if in_range (fst (schedule int1 intN master norms (sort (remdups norms)) rng))
      then Inr (store (fst (schedule int1 intN master norms (sort (remdups norms)) rng))
                  (replicate (length norms) NaN, replicate (length norms) NaN),
                snd (schedule int1 intN master norms (sort (remdups norms)) rng))
      else Inl IndexError)
 \<and> (\<exists>ll. assign_floats counter_int1 counter_intN master norms g
           = Inr (ll, g + length (filter (\<lambda>j. matched master (norms ! j)) [0..<length norms]))
       \<and> (\<forall>i < length norms. \<forall>cs. master (norms ! i) = Some cs \<longrightarrow> cs \<noteq> [] \<longrightarrow>
              fst ll ! i = fst (cs ! ((g + draw_position master norms i) mod length cs))
            \<and> snd ll ! i = snd (cs ! ((g + draw_position master norms i) mod length cs))))
 \<and> df_perm_b = permute_rows [3, 1, 2, 0] df_perm_a
 \<and> get_col df_perm_a ''species'' = Inr [Some ''Heron'', Some ''Heron'', Some ''Dodo'', Some ''Dodo'']
 \<and> get_col df_perm_b ''species'' = Inr [Some ''Dodo'', Some ''Heron'', Some ''Dodo'', Some ''Heron'']
 \<and> assign_coords ascii_casefold counter_int1 counter_intN df_perm_a ''species'' master_two (0::nat)
      = Inr (out_perm_a, 4)
 \<and> assign_coords ascii_casefold counter_int1 counter_intN df_perm_b ''species'' master_two (0::nat)
      = Inr (out_perm_b, 4)
 \<and> get_col out_perm_a ''id'' = Inr [Some ''r0'', Some ''r1'', Some ''r2'', Some ''r3'']
 \<and> get_col out_perm_a ''lat''
      = Inr [Some ''1.000000'', Some ''2.000000'', Some ''3.000000'', Some ''4.000000'']
 \<and> get_col out_perm_b ''id'' = Inr [Some ''r3'', Some ''r1'', Some ''r2'', Some ''r0'']
 \<and> get_col out_perm_b ''lat''
      = Inr [Some ''3.000000'', Some ''1.000000'', Some ''4.000000'', Some ''2.000000'']
 \<and> out_perm_b \<noteq> permute_rows [3, 1, 2, 0] out_perm_a"
  by (intro conjI assign_floats_schedule assign_floats_counter df_perm_b_def df_perm_species
      assign_coords_perm_a assign_coords_perm_b out_perm_differ)

theorem draws_in_sorted_species_order_witness:
  "\<exists>ll. assign_floats counter_int1 counter_intN master_two [''heron'', ''heron'', ''dodo'', ''dodo''] (0::nat)
          = Inr (ll, 4)
      \<and> draw_position master_two [''heron'', ''heron'', ''dodo'', ''dodo''] 0 = 2
      \<and> fst ll ! 0 = Finite False 1 0
      \<and> draw_position master_two [''heron'', ''heron'', ''dodo'', ''dodo''] 1 = 3
      \<and> fst ll ! 1 = Finite False 2 0
      \<and> draw_position master_two [''heron'', ''heron'', ''dodo'', ''dodo''] 2 = 0
      \<and> fst ll ! 2 = Finite False 3 0
      \<and> draw_position master_two [''heron'', ''heron'', ''dodo'', ''dodo''] 3 = 1
      \<and> fst ll ! 3 = Finite False 4 0"
proof -
  let ?norms = "[''heron'', ''heron'', ''dodo'', ''dodo'']"
  note t = draws_in_sorted_species_order [where master = master_two and norms = ?norms and g = 0]
  from t [THEN conjunct2, THEN conjunct1]
  obtain ll where
    a: "assign_floats counter_int1 counter_intN master_two ?norms (0::nat)
          = Inr (ll, 0 + length (filter (\<lambda>j. matched master_two (?norms ! j)) [0..<length ?norms]))"
    and r: "\<forall>i < length ?norms. \<forall>cs. master_two (?norms ! i) = Some cs \<longrightarrow> cs \<noteq> [] \<longrightarrow>
              fst ll ! i = fst (cs ! ((0 + draw_position master_two ?norms i) mod length cs))
            \<and> snd ll ! i = snd (cs ! ((0 + draw_position master_two ?norms i) mod length cs))"
    by (elim conjE exE)
  have n: "length (filter (\<lambda>j. matched master_two (?norms ! j)) [0..<length ?norms]) = 4"
    by (simp add: matched_def master_two_def)
  have h: "master_two ''heron'' = Some [(Finite False 1 0, Finite False 1 0), (Finite False 2 0, Finite False 2 0)]"
    and d: "master_two ''dodo'' = Some [(Finite False 3 0, Finite False 3 0), (Finite False 4 0, Finite False 4 0)]"
    by (simp_all add: master_two_def)
  from r [rule_format, of 0] h have 0: "fst ll ! 0 = Finite False 1 0"
    by (simp add: draw_position_two draw_position_two_Suc numeral_2_eq_2 [symmetric])
  from r [rule_format, of 1] h have 1: "fst ll ! 1 = Finite False 2 0"
    by (simp add: draw_position_two draw_position_two_Suc numeral_2_eq_2 [symmetric])
  from r [rule_format, of 2] d have 2: "fst ll ! 2 = Finite False 3 0"
    by (simp add: draw_position_two draw_position_two_Suc numeral_2_eq_2 [symmetric])
  from r [rule_format, of 3] d have 3: "fst ll ! 3 = Finite False 4 0"
    by (simp add: draw_position_two draw_position_two_Suc numeral_2_eq_2 [symmetric])
  from a n have a': "assign_floats counter_int1 counter_intN master_two ?norms (0::nat) = Inr (ll, 4)"
    by simp
  show ?thesis
    by (rule exI [of _ ll]) (intro conjI a' 0 1 2 3 draw_position_two)
qed

text \<open>
  The spec's examples of the normalizer: a parenthesized span and the case of the letters
  do not matter, and a run of spaces counts as one.
\<close>

theorem normalize_species_examples:
  "normalize_species ascii_casefold (Some ''Great Egret (Ardea alba)'') = ''great egret''
 \<and> normalize_species ascii_casefold (Some ''great egret'') = ''great egret''
 \<and> normalize_species ascii_casefold (Some ''GREAT EGRET'') = ''great egret''
 \<and> normalize_species ascii_casefold (Some ''Blue   Jay'') = normalize_species ascii_casefold (Some ''Blue Jay'')
 \<and> normalize_species ascii_casefold None = []"
  by (simp add: norm_eval)

text \<open>
  The spec's example of a run: the master has one pair for \<open>heron\<close>, the table three rows
  of \<open>Heron\<close>; every row receives that pair, nothing is reported.
\<close>

theorem three_herons:
  "main ascii_casefold parse_small counter_int1 counter_intN df_three dfm_heron (0::nat) =
     Inr \<lparr> enriched =
             [(''Especie'', [Some ''Heron'', Some ''Heron'', Some ''Heron'']),
              (''lat'', [Some ''10.000000'', Some ''10.000000'', Some ''10.000000'']),
              (''lopnong'', [Some ''20.000000'', Some ''20.000000'', Some ''20.000000'']),
              (''lat_lon'', [Some ''10.000000,20.000000'', Some ''10.000000,20.000000'',
                             Some ''10.000000,20.000000''])],
           no_match_file = None, total = 3, asignadas = 3, sin_match = 0 \<rparr>"
  unfolding main_def find_col_three load_master_heron
  by (simp add: assign_coords_three)
     (simp add: df_three_def get_col_def norm_eval no_match_of_def)

text \<open>
  The spec's example of a master row with the latitude \<open>N/A\<close>: the row is left out, the
  other row of the species stays.  The longitude column is found under the misspelt header.
\<close>

theorem master_row_without_latitude:
  "load_master ascii_casefold parse_small dfm_na =
     Inr [''heron'' \<mapsto> [(Finite False 10 0, Finite False 20 0)]]"
  by (simp add: dfm_na_def find_col_eval norm_eval load_master_eval)

end
